theory Spec2Isabelle
  imports Complex_Main
begin

section \<open>Characters and strings as Python sees them\<close>

text \<open>
  Texts are modelled as \<open>string\<close> (lists of 8-bit characters), restricted to ASCII:
  a word character (\<open>\w\<close>) is an ASCII letter, a digit or the underscore, whitespace
  (\<open>\s\<close>) is one of space, tab, newline, carriage return, form feed and vertical tab,
  and \<open>str.capitalize\<close> on a one-character string upper-cases an ASCII lower-case letter
  and leaves every other character as it is.
\<close>

definition newline :: char where
  "newline = CHR 0x0A"

definition backslash :: char where
  "backslash = CHR 0x5C"

definition is_word :: "char \<Rightarrow> bool" where
  "is_word c = (let n = (of_char c :: nat) in
     (48 \<le> n \<and> n \<le> 57) \<or> (65 \<le> n \<and> n \<le> 90) \<or> (97 \<le> n \<and> n \<le> 122) \<or> n = 95)"

definition is_space :: "char \<Rightarrow> bool" where
  "is_space c = (let n = (of_char c :: nat) in n = 32 \<or> (9 \<le> n \<and> n \<le> 13))"

definition capitalize_char :: "char \<Rightarrow> char" where
  "capitalize_char c = (let n = (of_char c :: nat) in
     if 97 \<le> n \<and> n \<le> 122 then char_of (n - 32) else c)"

text \<open>\<open>s.split("\n")\<close>: always at least one piece.\<close>

fun split_lines :: "string \<Rightarrow> string list" where
  "split_lines [] = [[]]"
| "split_lines (c # cs) =
     (if c = newline then [] # split_lines cs
      else (case split_lines cs of l # ls \<Rightarrow> (c # l) # ls | [] \<Rightarrow> [[c]]))"

section \<open>Regular expressions\<close>

text \<open>
  Python's \<open>re\<close> module is a library outside the repository. Its compiled patterns are
  modelled by a syntax tree for the constructs that the patterns of \<open>text.py\<close> and of the
  specification's examples use, and matching by a backtracking matcher that lists the
  possible ends of a match at a position in the order in which Python's engine tries them,
  so that the head of the list is the match Python reports.
  The anchors come in the variants that the flags select: \<open>Bos\<close> is \<open>\A\<close> and \<open>^\<close>
  without MULTILINE, \<open>Bol\<close> is \<open>^\<close> with MULTILINE, \<open>Eos\<close> is \<open>\Z\<close>, \<open>EosNl\<close> is \<open>$\<close>
  without MULTILINE, \<open>Eol\<close> is \<open>$\<close> with MULTILINE; \<open>Dot\<close> is \<open>.\<close> without DOTALL and
  \<open>DotAll\<close> with it.
\<close>

datatype regex =
    Empty
  | Chr char
  | Dot
  | DotAll
  | WordC
  | NonWordC
  | SpaceC
  | NonSpaceC
  | NoneOf "char list"
  | Bos
  | Bol
  | Eos
  | EosNl
  | Eol
  | NotBehind string
  | Cat regex regex
  | Alt regex regex
  | Star regex
  | LazyStar regex
  | Group nat regex

text \<open>A matcher state: the position reached and the spans of the groups closed so far
  (the most recent first).\<close>

type_synonym groups = "(nat \<times> nat \<times> nat) list"
type_synonym mstate = "nat \<times> groups"

definition one_char :: "(char \<Rightarrow> bool) \<Rightarrow> string \<Rightarrow> mstate \<Rightarrow> mstate list" where
  "one_char P s st =
     (if fst st < length s \<and> P (s ! fst st) then [(Suc (fst st), snd st)] else [])"

definition assertion :: "bool \<Rightarrow> mstate \<Rightarrow> mstate list" where
  "assertion b st = (if b then [st] else [])"

text \<open>Repetition: an iteration that consumes nothing ends the repetition. The counter
  bounds the number of iterations by the length of the text, which iterations that
  consume at least one character never exceed.\<close>

fun iter_greedy :: "(mstate \<Rightarrow> mstate list) \<Rightarrow> nat \<Rightarrow> mstate \<Rightarrow> mstate list" where
  "iter_greedy f 0 st = [st]"
| "iter_greedy f (Suc n) st =
     concat (map (iter_greedy f n) (filter (\<lambda>st'. fst st < fst st') (f st))) @ [st]"

fun iter_lazy :: "(mstate \<Rightarrow> mstate list) \<Rightarrow> nat \<Rightarrow> mstate \<Rightarrow> mstate list" where
  "iter_lazy f 0 st = [st]"
| "iter_lazy f (Suc n) st =
     st # concat (map (iter_lazy f n) (filter (\<lambda>st'. fst st < fst st') (f st)))"

primrec rmatch :: "regex \<Rightarrow> string \<Rightarrow> mstate \<Rightarrow> mstate list" where
  "rmatch Empty s = (\<lambda>st. [st])"
| "rmatch (Chr c) s = one_char (\<lambda>d. d = c) s"
| "rmatch Dot s = one_char (\<lambda>d. d \<noteq> newline) s"
| "rmatch DotAll s = one_char (\<lambda>d. True) s"
| "rmatch WordC s = one_char is_word s"
| "rmatch NonWordC s = one_char (\<lambda>d. \<not> is_word d) s"
| "rmatch SpaceC s = one_char is_space s"
| "rmatch NonSpaceC s = one_char (\<lambda>d. \<not> is_space d) s"
| "rmatch (NoneOf cs) s = one_char (\<lambda>d. d \<notin> set cs) s"
| "rmatch Bos s = (\<lambda>st. assertion (fst st = 0) st)"
| "rmatch Bol s = (\<lambda>st. assertion (fst st = 0 \<or> (fst st \<le> length s \<and> s ! (fst st - 1) = newline)) st)"
| "rmatch Eos s = (\<lambda>st. assertion (fst st = length s) st)"
| "rmatch EosNl s = (\<lambda>st. assertion (fst st = length s \<or> (Suc (fst st) = length s \<and> s ! fst st = newline)) st)"
| "rmatch Eol s = (\<lambda>st. assertion (fst st = length s \<or> (fst st < length s \<and> s ! fst st = newline)) st)"
| "rmatch (NotBehind w) s =
     (\<lambda>st. assertion (\<not> (length w \<le> fst st \<and> take (length w) (drop (fst st - length w) s) = w)) st)"
| "rmatch (Cat r1 r2) s = (\<lambda>st. concat (map (rmatch r2 s) (rmatch r1 s st)))"
| "rmatch (Alt r1 r2) s = (\<lambda>st. rmatch r1 s st @ rmatch r2 s st)"
| "rmatch (Star r) s = iter_greedy (rmatch r s) (length s)"
| "rmatch (LazyStar r) s = iter_lazy (rmatch r s) (length s)"
| "rmatch (Group n r) s =
     (\<lambda>st. map (\<lambda>st'. (fst st', (n, fst st, fst st') # snd st')) (rmatch r s st))"

text \<open>The numbers of the groups of a pattern.\<close>

primrec group_numbers :: "regex \<Rightarrow> nat list" where
  "group_numbers Empty = []"
| "group_numbers (Chr c) = []"
| "group_numbers Dot = []"
| "group_numbers DotAll = []"
| "group_numbers WordC = []"
| "group_numbers NonWordC = []"
| "group_numbers SpaceC = []"
| "group_numbers NonSpaceC = []"
| "group_numbers (NoneOf cs) = []"
| "group_numbers Bos = []"
| "group_numbers Bol = []"
| "group_numbers Eos = []"
| "group_numbers EosNl = []"
| "group_numbers Eol = []"
| "group_numbers (NotBehind w) = []"
| "group_numbers (Cat r1 r2) = group_numbers r1 @ group_numbers r2"
| "group_numbers (Alt r1 r2) = group_numbers r1 @ group_numbers r2"
| "group_numbers (Star r) = group_numbers r"
| "group_numbers (LazyStar r) = group_numbers r"
| "group_numbers (Group n r) = n # group_numbers r"

text \<open>\<open>regex.search(s, pos)\<close>: the leftmost match that starts at \<open>pos\<close> or later, as its
  start, its end and its groups.\<close>

fun search_at :: "regex \<Rightarrow> string \<Rightarrow> nat list \<Rightarrow> (nat \<times> nat \<times> groups) option" where
  "search_at r s [] = None"
| "search_at r s (p # ps) =
     (case rmatch r s (p, []) of
        [] \<Rightarrow> search_at r s ps
      | st # _ \<Rightarrow> Some (p, fst st, snd st))"

definition re_search :: "regex \<Rightarrow> string \<Rightarrow> nat \<Rightarrow> (nat \<times> nat \<times> groups) option" where
  "re_search r s p = search_at r s [p ..< Suc (length s)]"

section \<open>Substitution\<close>

text \<open>
  A replacement template: a backslash followed by one of the digits 1 to 9 stands for the
  text of that group, two backslashes for one, backslash-n for a newline; every other
  character stands for itself. \<open>None\<close> is Python's \<open>re.error\<close> for a group that the
  match does not have.
\<close>

definition digit_value :: "char \<Rightarrow> nat option" where
  "digit_value c = (let n = (of_char c :: nat) in if 49 \<le> n \<and> n \<le> 57 then Some (n - 48) else None)"

fun template_groups :: "string \<Rightarrow> nat list" where
  "template_groups (c # d # cs) =
     (if c = backslash then
        (case digit_value d of Some n \<Rightarrow> n # template_groups cs | None \<Rightarrow> template_groups cs)
      else template_groups (d # cs))"
| "template_groups cs = []"

fun expand :: "string \<Rightarrow> string \<Rightarrow> groups \<Rightarrow> string option" where
  "expand (c # d # cs) s gs =
     (if c = backslash then
        (case digit_value d of
           Some n \<Rightarrow>
             (case map_of gs n of
                None \<Rightarrow> None
              | Some (a, z) \<Rightarrow> map_option (\<lambda>rest. take (z - a) (drop a s) @ rest) (expand cs s gs))
         | None \<Rightarrow>
             map_option (\<lambda>rest. (if d = backslash then [backslash]
                                  else if d = CHR ''n'' then [newline] else [c, d]) @ rest)
               (expand cs s gs))
      else map_option (\<lambda>rest. c # rest) (expand (d # cs) s gs))"
| "expand cs s gs = Some cs"

text \<open>
  \<open>regex.subn(template, s)\<close> of Python 2 (the source uses \<open>sys.maxint\<close>): the matches are
  replaced from left to right without overlap; an empty match is replaced unless it lies
  where the previous match ended. The result is the new text and the number of
  replacements.
\<close>

function subn_from :: "regex \<Rightarrow> string \<Rightarrow> string \<Rightarrow> nat \<Rightarrow> nat option \<Rightarrow> string \<Rightarrow> nat \<Rightarrow> (string \<times> nat) option" where
  "subn_from r tpl s p prev out n =
     (if length s < p then Some (out, n)
      else
        (case rmatch r s (p, []) of
           [] \<Rightarrow> subn_from r tpl s (Suc p) prev (out @ take 1 (drop p s)) n
         | st # _ \<Rightarrow>
             if p < fst st then
               (case expand tpl s ((0, p, fst st) # snd st) of
                  None \<Rightarrow> None
                | Some e \<Rightarrow> subn_from r tpl s (fst st) (Some (fst st)) (out @ e) (Suc n))
             else if prev = Some p then
               subn_from r tpl s (Suc p) prev (out @ take 1 (drop p s)) n
             else
               (case expand tpl s ((0, p, p) # snd st) of
                  None \<Rightarrow> None
                | Some e \<Rightarrow> subn_from r tpl s (Suc p) (Some p) (out @ e @ take 1 (drop p s)) (Suc n))))"
  by pat_completeness auto
termination
  by (relation "measure (\<lambda>(r, tpl, s, p, prev, out, n). Suc (length s) - p)") auto

definition re_subn :: "regex \<Rightarrow> string \<Rightarrow> string \<Rightarrow> (string \<times> nat) option" where
  "re_subn r tpl s =
     (if \<forall>g \<in> set (template_groups tpl). g \<in> set (group_numbers r)
      then subn_from r tpl s 0 None [] 0 else None)"

text \<open>\<open>regex.sub("", s)\<close>: the empty template refers to no group.\<close>

definition re_sub_empty :: "regex \<Rightarrow> string \<Rightarrow> string" where
  "re_sub_empty r s = (case re_subn r [] s of Some (t, n) \<Rightarrow> t | None \<Rightarrow> s)"

section \<open>The environment of the text agent\<close>

text \<open>
  What the agent takes from outside the files at hand: Python's \<open>re.compile\<close> (\<open>None\<close>
  is \<open>re.error\<close>; the flags are \<open>None\<close> where the caller leaves them to the parser's
  default), the markup tag pattern of a file format (\<open>aeidon.tags.new(format).tag\<close>), and
  the line breaker's \<open>break_lines\<close>, given the liner as the agent has configured it.
\<close>

datatype error = BadPattern | InvalidIndex | InvalidDocument

type_synonym format = nat

record liner =
  break_points :: "(regex \<times> string) list"
  max_deviation :: real
  max_length :: int
  max_lines :: int
  length_func :: "string \<Rightarrow> int"
  liner_text :: string

record env =
  re_compile :: "string \<Rightarrow> nat option \<Rightarrow> regex option"
  tag_of_format :: "format \<Rightarrow> regex"
  liner_break_lines :: "liner \<Rightarrow> error + string"

section \<open>Patterns\<close>

text \<open>
  Modelled from the spec: the Pattern record of section 3 (the class \<open>gaupol.Pattern\<close> is
  not among the sources). \<open>pattern_field\<close>, \<open>replacement_field\<close>, \<open>repeat_field\<close> and
  \<open>capitalize_field\<close> are what \<open>get_field("Pattern")\<close>, \<open>get_field("Replacement")\<close>,
  \<open>get_field_boolean("Repeat")\<close> and \<open>get_field("Capitalize")\<close> return, \<open>flags\<close> is
  \<open>get_flags()\<close>.
\<close>

record pattern =
  pattern_field :: string
  flags :: nat
  replacement_field :: string
  enabled :: bool
  repeat_field :: bool
  capitalize_field :: string

section \<open>The parser\<close>

text \<open>
  Modelled from the spec: the TextParser of section 4.1 (the class \<open>gaupol.Parser\<close> is not
  among the sources). \<open>set_text\<close> replaces the buffer and resets the cursor;
  \<open>set_regex\<close> compiles the pattern, failing with \<open>BadPattern\<close>, and sets the cursor;
  \<open>next_match\<close> is \<open>next()\<close>: the next match from the cursor on, the cursor moving to
  its end, \<open>None\<close> for \<open>StopIteration\<close>; \<open>replace_all\<close> substitutes every match in the
  buffer and returns the count. Assigning to \<open>parser.text\<close> or \<open>parser.pos\<close> is a
  field update.
\<close>

record parser =
  ptext :: string
  regex :: "regex option"
  replacement :: string
  pos :: nat

definition new_parser :: parser where
  "new_parser = \<lparr>ptext = [], regex = None, replacement = [], pos = 0\<rparr>"

definition set_text :: "string \<Rightarrow> parser \<Rightarrow> parser" where
  "set_text s parser = parser\<lparr>ptext := s, pos := 0\<rparr>"

definition set_regex :: "env \<Rightarrow> string \<Rightarrow> nat option \<Rightarrow> nat \<Rightarrow> parser \<Rightarrow> error + parser" where
  "set_regex env string fl start parser =
     (case re_compile env string fl of
        None \<Rightarrow> Inl BadPattern
      | Some r \<Rightarrow> Inr (parser\<lparr>regex := Some r, pos := start\<rparr>))"

definition next_match :: "parser \<Rightarrow> ((nat \<times> nat) \<times> parser) option" where
  "next_match parser =
     (case regex parser of
        None \<Rightarrow> None
      | Some r \<Rightarrow>
          (case re_search r (ptext parser) (pos parser) of
             None \<Rightarrow> None
           | Some (a, z, gs) \<Rightarrow> Some ((a, z), parser\<lparr>pos := z\<rparr>)))"

definition replace_all :: "parser \<Rightarrow> error + (nat \<times> parser)" where
  "replace_all parser =
     (case regex parser of
        None \<Rightarrow> Inr (0, parser)
      | Some r \<Rightarrow>
          (case re_subn r (replacement parser) (ptext parser) of
             None \<Rightarrow> Inl BadPattern
           | Some (s, count) \<Rightarrow> Inr (count, parser\<lparr>ptext := s\<rparr>)))"

section \<open>The project: subtitles, files and history\<close>

text \<open>
  A file is represented by its format, the one field of it that is read here.
  \<open>OtherDocument\<close> stands for every document value that is neither \<open>MAIN\<close> nor \<open>TRAN\<close>.
\<close>

datatype document = MAIN | TRAN | OtherDocument

record subtitle =
  main_text :: string
  tran_text :: string

datatype operation =
    ReplaceTexts "nat list" document "string list"
  | RemoveSubtitles "nat list"

record action =
  description :: string
  operations :: "operation list"

record project =
  subtitles :: "subtitle list"
  main_file :: "format option"
  tran_file :: "format option"
  undoables :: "action list"
  redoables :: "action list"

definition get_text :: "subtitle \<Rightarrow> document \<Rightarrow> string" where
  "get_text subtitle doc = (if doc = TRAN then tran_text subtitle else main_text subtitle)"

definition put_text :: "document \<Rightarrow> string \<Rightarrow> subtitle \<Rightarrow> subtitle" where
  "put_text doc s subtitle =
     (if doc = TRAN then subtitle\<lparr>tran_text := s\<rparr> else subtitle\<lparr>main_text := s\<rparr>)"

text \<open>From \<open>aeidon/agents/util.py\<close>.\<close>

definition get_format :: "project \<Rightarrow> document \<Rightarrow> error + format option" where
  "get_format pr doc =
     (if doc = MAIN then Inr (main_file pr)
      else if doc = TRAN then
        (case tran_file pr of
           Some f \<Rightarrow> Inr (Some f)
         | None \<Rightarrow> Inr (main_file pr))
      else Inl InvalidDocument)"

definition get_markup_tag_regex :: "env \<Rightarrow> project \<Rightarrow> document \<Rightarrow> error + regex option" where
  "get_markup_tag_regex env pr doc =
     (case get_format pr doc of
        Inl e \<Rightarrow> Inl e
      | Inr None \<Rightarrow> Inr None
      | Inr (Some f) \<Rightarrow> Inr (Some (tag_of_format env f)))"

definition get_parser :: "env \<Rightarrow> project \<Rightarrow> document \<Rightarrow> error + parser" where
  "get_parser env pr doc =
     (case get_markup_tag_regex env pr doc of
        Inl e \<Rightarrow> Inl e
      | Inr re_tag \<Rightarrow> Inr new_parser)"

definition get_liner :: "env \<Rightarrow> project \<Rightarrow> document \<Rightarrow> error + liner" where
  "get_liner env pr doc =
     (case get_markup_tag_regex env pr doc of
        Inl e \<Rightarrow> Inl e
      | Inr re_tag \<Rightarrow>
          Inr \<lparr>break_points = [], max_deviation = 0, max_length = 0, max_lines = 0,
               length_func = (\<lambda>s. int (length s)), liner_text = []\<rparr>)"

text \<open>
  Modelled from the spec: the ActionHistory of section 4.4 and the collection interface of
  section 6 (\<open>replace_texts\<close>, \<open>remove_subtitles\<close>, \<open>set_action_description\<close> and
  \<open>group_actions\<close> belong to agents that are not among the sources). Every call here
  has the direction Do: a committed action goes to the end of the undo stack and clears
  the redo stack; a description is bound late to the most recent action; grouping merges
  the last \<open>count\<close> actions into one under one description.
\<close>

definition commit :: "operation \<Rightarrow> project \<Rightarrow> project" where
  "commit op pr =
     pr\<lparr>undoables := undoables pr @ [\<lparr>description = [], operations = [op]\<rparr>], redoables := []\<rparr>"

definition replace_texts :: "nat list \<Rightarrow> document \<Rightarrow> string list \<Rightarrow> project \<Rightarrow> project" where
  "replace_texts indexes doc texts pr =
     commit (ReplaceTexts indexes doc texts)
       (pr\<lparr>subtitles :=
          fold (\<lambda>(i, s) subs. subs[i := put_text doc s (subs ! i)]) (zip indexes texts) (subtitles pr)\<rparr>)"

definition remove_subtitles :: "nat list \<Rightarrow> project \<Rightarrow> project" where
  "remove_subtitles indexes pr =
     commit (RemoveSubtitles indexes)
       (pr\<lparr>subtitles :=
          map fst (filter (\<lambda>(subtitle, i). i \<notin> set indexes)
            (zip (subtitles pr) [0 ..< length (subtitles pr)]))\<rparr>)"

definition set_action_description :: "string \<Rightarrow> project \<Rightarrow> project" where
  "set_action_description d pr =
     (if undoables pr = [] then pr
      else pr\<lparr>undoables := butlast (undoables pr) @ [(last (undoables pr))\<lparr>description := d\<rparr>]\<rparr>)"

definition group_actions :: "nat \<Rightarrow> string \<Rightarrow> project \<Rightarrow> project" where
  "group_actions count d pr =
     (let k = length (undoables pr) - count in
      pr\<lparr>undoables := take k (undoables pr) @
            [\<lparr>description = d, operations = concat (map operations (drop k (undoables pr)))\<rparr>]\<rparr>)"

section \<open>The text agent\<close>

text \<open>
  The contract \<open>*_require\<close> of each operation, checked before its body, and
  \<open>indexes or range(len(self.subtitles))\<close>. An index is a Python integer.
\<close>

datatype outcome = NoChange | Changed

definition require :: "int list option \<Rightarrow> project \<Rightarrow> bool" where
  "require indexes pr =
     (\<forall>index \<in> set (case indexes of None \<Rightarrow> [] | Some xs \<Rightarrow> xs).
        0 \<le> index \<and> index < int (length (subtitles pr)))"

definition indexes_or_all :: "int list option \<Rightarrow> project \<Rightarrow> nat list" where
  "indexes_or_all indexes pr =
     (case indexes of
        None \<Rightarrow> [0 ..< length (subtitles pr)]
      | Some [] \<Rightarrow> [0 ..< length (subtitles pr)]
      | Some xs \<Rightarrow> map nat xs)"

text \<open>\<open>_re_capitalizable\<close>, the pattern \<open>^\W*(?<!\.\.\.)\w\<close> compiled with
  \<open>re.UNICODE\<close> alone.\<close>

definition re_capitalizable :: regex where
  "re_capitalizable = Cat Bos (Cat (Star NonWordC) (Cat (NotBehind ''...'') WordC))"

definition capitalize_position :: "parser \<Rightarrow> nat \<Rightarrow> bool \<times> parser" where
  "capitalize_position parser p =
     (case re_search re_capitalizable (drop p (ptext parser)) 0 of
        None \<Rightarrow> (False, parser)
      | Some (start, z, gs) \<Rightarrow>
          (let a = p + start;
               prefix = take a (ptext parser);
               text = map capitalize_char (take 1 (drop a (ptext parser)));
               suffix = drop (a + 1) (ptext parser)
           in (True, parser\<lparr>ptext := prefix @ text @ suffix\<rparr>)))"

partial_function (option) capitalize_text :: "parser \<Rightarrow> pattern \<Rightarrow> bool \<Rightarrow> (bool \<times> parser) option" where
  "capitalize_text parser pattern cap_next =
     (case next_match parser of
        None \<Rightarrow> Some (cap_next, parser)
      | Some ((a, z), parser1) \<Rightarrow>
          if capitalize_field pattern = ''Start'' then
            capitalize_text (snd (capitalize_position parser1 a)) pattern cap_next
          else if capitalize_field pattern = ''After'' then
            capitalize_text (snd (capitalize_position parser1 z)) pattern
              (\<not> fst (capitalize_position parser1 z))
          else capitalize_text parser1 pattern cap_next)"

declare capitalize_text.simps [code]

definition get_subtitutions :: "pattern list \<Rightarrow> (string \<times> nat \<times> string) list" where
  "get_subtitutions patterns =
     map (\<lambda>x. (pattern_field x, flags x, replacement_field x)) (filter enabled patterns)"

subsection \<open>capitalize\<close>

text \<open>
  Modelled from the spec: \<open>gaupol.util.get_ranges\<close> is not among the sources; section 4.2
  has it partition the index set into maximal runs of consecutive integers. The indexes
  are taken as a set (sorted, without duplicates) and cut wherever the next one is not
  the successor of the one before.
\<close>

fun add_to_ranges :: "nat \<Rightarrow> nat list list \<Rightarrow> nat list list" where
  "add_to_ranges i [] = [[i]]"
| "add_to_ranges i ([] # rs) = [i] # rs"
| "add_to_ranges i ((j # r) # rs) = (if j = Suc i then (i # j # r) # rs else [i] # (j # r) # rs)"

definition get_ranges :: "nat list \<Rightarrow> nat list list" where
  "get_ranges indexes = foldr add_to_ranges (sort (remdups indexes)) []"

text \<open>The loop over the enabled patterns for one subtitle (lines 181 to 187).\<close>

fun capitalize_patterns :: "env \<Rightarrow> pattern list \<Rightarrow> parser \<Rightarrow> bool \<Rightarrow> (error + bool \<times> parser) option" where
  "capitalize_patterns env [] parser cap_next = Some (Inr (cap_next, parser))"
| "capitalize_patterns env (pattern # rest) parser cap_next =
     (case set_regex env (pattern_field pattern) (Some (flags pattern)) 0 parser of
        Inl e \<Rightarrow> Some (Inl e)
      | Inr parser1 \<Rightarrow>
          (case capitalize_text (parser1\<lparr>pos := 0\<rparr>) pattern cap_next of
             None \<Rightarrow> None
           | Some (cap_next1, parser2) \<Rightarrow> capitalize_patterns env rest parser2 cap_next1))"

text \<open>The body of the loop over the indexes of a run (lines 176 to 191): the text that
  the parser holds at the end, and the carry-over for the next subtitle.\<close>

definition capitalize_subtitle :: "env \<Rightarrow> pattern list \<Rightarrow> parser \<Rightarrow> bool \<Rightarrow> nat \<Rightarrow> string \<Rightarrow> (error + bool \<times> parser) option" where
  "capitalize_subtitle env patterns parser cap_next index s =
     (let parser1 = set_text s parser;
          parser2 = (if cap_next \<or> index = 0 then snd (capitalize_position parser1 0) else parser1);
          cap_next1 = (if cap_next \<or> index = 0 then False else cap_next)
      in capitalize_patterns env (filter enabled patterns) parser2 cap_next1)"

fun capitalize_run :: "env \<Rightarrow> project \<Rightarrow> document \<Rightarrow> pattern list \<Rightarrow> nat list \<Rightarrow> parser \<Rightarrow> bool \<Rightarrow> nat list \<times> string list \<Rightarrow> (error + parser \<times> nat list \<times> string list) option" where
  "capitalize_run env pr doc patterns [] parser cap_next acc = Some (Inr (parser, acc))"
| "capitalize_run env pr doc patterns (index # rest) parser cap_next (new_indexes, new_texts) =
     (let subtitle = subtitles pr ! index in
      case capitalize_subtitle env patterns parser cap_next index (get_text subtitle doc) of
        None \<Rightarrow> None
      | Some (Inl e) \<Rightarrow> Some (Inl e)
      | Some (Inr (cap_next1, parser1)) \<Rightarrow>
          capitalize_run env pr doc patterns rest parser1 cap_next1
            (if ptext parser1 \<noteq> get_text subtitle doc
             then (new_indexes @ [index], new_texts @ [ptext parser1])
             else (new_indexes, new_texts)))"

text \<open>The loop over the runs (lines 173 and 174): each run starts with \<open>cap_next = False\<close>.\<close>

fun capitalize_ranges :: "env \<Rightarrow> project \<Rightarrow> document \<Rightarrow> pattern list \<Rightarrow> nat list list \<Rightarrow> parser \<Rightarrow> nat list \<times> string list \<Rightarrow> (error + nat list \<times> string list) option" where
  "capitalize_ranges env pr doc patterns [] parser acc = Some (Inr acc)"
| "capitalize_ranges env pr doc patterns (run # runs) parser acc =
     (case capitalize_run env pr doc patterns run parser False acc of
        None \<Rightarrow> None
      | Some (Inl e) \<Rightarrow> Some (Inl e)
      | Some (Inr (parser1, acc1)) \<Rightarrow> capitalize_ranges env pr doc patterns runs parser1 acc1)"

text \<open>
  The operation: the contract, then the body. An exception leaves with the project as it
  is at that moment; \<open>assert new_indexes\<close> under \<open>asserted_return\<close> ends the call without
  a change (the outcome NoChange). \<open>None\<close> is a call that does not return.
\<close>

definition capitalize :: "env \<Rightarrow> int list option \<Rightarrow> document \<Rightarrow> pattern list \<Rightarrow> project \<Rightarrow> ((error + outcome) \<times> project) option" where
  "capitalize env indexes doc patterns pr =
     (if \<not> require indexes pr then Some (Inl InvalidIndex, pr)
      else
        (case get_parser env pr doc of
           Inl e \<Rightarrow> Some (Inl e, pr)
         | Inr parser \<Rightarrow>
             (case capitalize_ranges env pr doc patterns
                     (get_ranges (indexes_or_all indexes pr)) parser ([], []) of
                None \<Rightarrow> None
              | Some (Inl e) \<Rightarrow> Some (Inl e, pr)
              | Some (Inr (new_indexes, new_texts)) \<Rightarrow>
                  if new_indexes = [] then Some (Inr NoChange, pr)
                  else Some (Inr Changed,
                    set_action_description ''Capitalizing texts''
                      (replace_texts new_indexes doc new_texts pr)))))"

subsection \<open>correct_common_errors\<close>

text \<open>The loop \<open>while repeats[i] and count\<close> (lines 222 and 223); it need not end.\<close>

partial_function (option) repeat_replace_all :: "bool \<Rightarrow> nat \<Rightarrow> parser \<Rightarrow> (error + parser) option" where
  "repeat_replace_all rep count parser =
     (if rep \<and> count \<noteq> 0 then
        (case replace_all parser of
           Inl e \<Rightarrow> Some (Inl e)
         | Inr (count1, parser1) \<Rightarrow> repeat_replace_all rep count1 parser1)
      else Some (Inr parser))"

declare repeat_replace_all.simps [code]

text \<open>The loop over \<open>enumerate(re_patterns)\<close> for one subtitle (lines 218 to 223).\<close>

fun correct_patterns :: "env \<Rightarrow> bool list \<Rightarrow> (nat \<times> string \<times> nat \<times> string) list \<Rightarrow> parser \<Rightarrow> (error + parser) option" where
  "correct_patterns env repeats [] parser = Some (Inr parser)"
| "correct_patterns env repeats ((i, string, fl, repl) # rest) parser =
     (case set_regex env string (Some fl) 0 parser of
        Inl e \<Rightarrow> Some (Inl e)
      | Inr parser1 \<Rightarrow>
          (case replace_all (parser1\<lparr>replacement := repl\<rparr>) of
             Inl e \<Rightarrow> Some (Inl e)
           | Inr (count, parser2) \<Rightarrow>
               (case repeat_replace_all (repeats ! i) count parser2 of
                  None \<Rightarrow> None
                | Some (Inl e) \<Rightarrow> Some (Inl e)
                | Some (Inr parser3) \<Rightarrow> correct_patterns env repeats rest parser3)))"

text \<open>The loop over the indexes (lines 215 to 227).\<close>

fun correct_loop :: "env \<Rightarrow> project \<Rightarrow> document \<Rightarrow> bool list \<Rightarrow> (string \<times> nat \<times> string) list \<Rightarrow> nat list \<Rightarrow> parser \<Rightarrow> nat list \<times> string list \<Rightarrow> (error + nat list \<times> string list) option" where
  "correct_loop env pr doc repeats re_patterns [] parser acc = Some (Inr acc)"
| "correct_loop env pr doc repeats re_patterns (index # rest) parser (new_indexes, new_texts) =
     (let subtitle = subtitles pr ! index in
      case correct_patterns env repeats (enumerate 0 re_patterns)
             (set_text (get_text subtitle doc) parser) of
        None \<Rightarrow> None
      | Some (Inl e) \<Rightarrow> Some (Inl e)
      | Some (Inr parser1) \<Rightarrow>
          correct_loop env pr doc repeats re_patterns rest parser1
            (if ptext parser1 \<noteq> get_text subtitle doc
             then (new_indexes @ [index], new_texts @ [ptext parser1])
             else (new_indexes, new_texts)))"

definition correct_common_errors :: "env \<Rightarrow> int list option \<Rightarrow> document \<Rightarrow> pattern list \<Rightarrow> project \<Rightarrow> ((error + outcome) \<times> project) option" where
  "correct_common_errors env indexes doc patterns pr =
     (if \<not> require indexes pr then Some (Inl InvalidIndex, pr)
      else
        (case get_parser env pr doc of
           Inl e \<Rightarrow> Some (Inl e, pr)
         | Inr parser \<Rightarrow>
             (let re_patterns = get_subtitutions patterns;
                  repeats = map repeat_field patterns
              in case correct_loop env pr doc repeats re_patterns
                        (indexes_or_all indexes pr) parser ([], []) of
                   None \<Rightarrow> None
                 | Some (Inl e) \<Rightarrow> Some (Inl e, pr)
                 | Some (Inr (new_indexes, new_texts)) \<Rightarrow>
                     if new_indexes = [] then Some (Inr NoChange, pr)
                     else Some (Inr Changed,
                       set_action_description ''Correcting common errors''
                         (replace_texts new_indexes doc new_texts pr)))))"

subsection \<open>remove_hearing_impaired\<close>

text \<open>The local function \<open>substitute\<close> of \<open>_remove_leftover_spaces\<close>: the flags are left to
  the parser.\<close>

definition substitute :: "env \<Rightarrow> string \<Rightarrow> string \<Rightarrow> parser \<Rightarrow> error + parser" where
  "substitute env pat repl parser =
     (case set_regex env pat None 0 parser of
        Inl e \<Rightarrow> Inl e
      | Inr parser1 \<Rightarrow>
          (case replace_all (parser1\<lparr>replacement := repl\<rparr>) of
             Inl e \<Rightarrow> Inl e
           | Inr (count, parser2) \<Rightarrow> Inr parser2))"

definition and_then :: "error + 'a \<Rightarrow> ('a \<Rightarrow> error + 'b) \<Rightarrow> error + 'b" where
  "and_then m f = (case m of Inl e \<Rightarrow> Inl e | Inr x \<Rightarrow> f x)"

text \<open>The pattern sources of lines 83 to 89, in the order of the source:
  \<^verbatim>\<open>(^\s+|\s+$)\<close>, \<^verbatim>\<open> {2,}\<close>, \<^verbatim>\<open>^\W*$\<close>, \<^verbatim>\<open>(^\n|\n$)\<close>, \<^verbatim>\<open>^-(\S)\<close>,
  \<^verbatim>\<open>^- (.*?^[^-])\<close> and \<^verbatim>\<open>\A- ([^\n]*)\Z\<close>; the templates are empty, a space,
  \<^verbatim>\<open>- \1\<close> and \<^verbatim>\<open>\1\<close>.\<close>

definition src_trim_space :: string where
  "src_trim_space = ''(^'' @ [backslash] @ ''s+|'' @ [backslash] @ ''s+$)''"

definition src_spaces :: string where
  "src_spaces = '' {2,}''"

definition src_nonword :: string where
  "src_nonword = ''^'' @ [backslash] @ ''W*$''"

definition src_trim_newline :: string where
  "src_trim_newline = ''(^'' @ [backslash] @ ''n|'' @ [backslash] @ ''n$)''"

definition src_dash :: string where
  "src_dash = ''^-('' @ [backslash] @ ''S)''"

definition src_dash_merge :: string where
  "src_dash_merge = ''^- (.*?^[^-])''"

definition src_dash_lone :: string where
  "src_dash_lone = [backslash] @ ''A- ([^'' @ [backslash] @ ''n]*)'' @ [backslash] @ ''Z''"

definition group1 :: string where
  "group1 = [backslash] @ ''1''"

text \<open>The body of the loop of \<open>_remove_leftover_spaces\<close> for one text (lines 82 to 90).\<close>

definition leftover_spaces_text :: "env \<Rightarrow> string \<Rightarrow> parser \<Rightarrow> error + parser" where
  "leftover_spaces_text env s parser =
     and_then (substitute env src_trim_space [] (set_text s parser)) (\<lambda>parser.
     and_then (substitute env src_spaces '' '' parser) (\<lambda>parser.
     and_then (substitute env src_nonword [] parser) (\<lambda>parser.
     and_then (substitute env src_trim_newline [] parser) (\<lambda>parser.
     and_then (substitute env src_dash (''- '' @ group1) parser) (\<lambda>parser.
     and_then (substitute env src_dash_merge group1 parser) (\<lambda>parser.
     substitute env src_dash_lone group1 parser))))))"

fun leftover_spaces_loop :: "env \<Rightarrow> (nat \<times> string) list \<Rightarrow> string list \<Rightarrow> parser \<Rightarrow> error + string list \<times> parser" where
  "leftover_spaces_loop env [] texts parser = Inr (texts, parser)"
| "leftover_spaces_loop env ((i, s) # rest) texts parser =
     (case leftover_spaces_text env s parser of
        Inl e \<Rightarrow> Inl e
      | Inr parser1 \<Rightarrow> leftover_spaces_loop env rest (texts[i := ptext parser1]) parser1)"

definition remove_leftover_spaces :: "env \<Rightarrow> string list \<Rightarrow> parser \<Rightarrow> error + string list \<times> parser" where
  "remove_leftover_spaces env texts parser =
     leftover_spaces_loop env (enumerate 0 texts) texts parser"

text \<open>The loop over the patterns for one subtitle (lines 253 to 256).\<close>

fun hearing_patterns :: "env \<Rightarrow> (string \<times> nat \<times> string) list \<Rightarrow> parser \<Rightarrow> error + parser" where
  "hearing_patterns env [] parser = Inr parser"
| "hearing_patterns env ((string, fl, repl) # rest) parser =
     (case set_regex env string (Some fl) 0 parser of
        Inl e \<Rightarrow> Inl e
      | Inr parser1 \<Rightarrow>
          (case replace_all (parser1\<lparr>replacement := repl\<rparr>) of
             Inl e \<Rightarrow> Inl e
           | Inr (count, parser2) \<Rightarrow> hearing_patterns env rest parser2))"

text \<open>The loop over the indexes (lines 250 to 260).\<close>

fun hearing_loop :: "env \<Rightarrow> project \<Rightarrow> document \<Rightarrow> (string \<times> nat \<times> string) list \<Rightarrow> nat list \<Rightarrow> parser \<Rightarrow> nat list \<times> string list \<Rightarrow> error + parser \<times> nat list \<times> string list" where
  "hearing_loop env pr doc re_patterns [] parser acc = Inr (parser, acc)"
| "hearing_loop env pr doc re_patterns (index # rest) parser (new_indexes, new_texts) =
     (let subtitle = subtitles pr ! index in
      case hearing_patterns env re_patterns (set_text (get_text subtitle doc) parser) of
        Inl e \<Rightarrow> Inl e
      | Inr parser1 \<Rightarrow>
          hearing_loop env pr doc re_patterns rest parser1
            (if ptext parser1 \<noteq> get_text subtitle doc
             then (new_indexes @ [index], new_texts @ [ptext parser1])
             else (new_indexes, new_texts)))"

text \<open>Lines 266 to 268: the indexes whose new text is empty.\<close>

definition empty_text_indexes :: "nat list \<Rightarrow> string list \<Rightarrow> nat list" where
  "empty_text_indexes new_indexes new_texts =
     map (\<lambda>(i, s). new_indexes ! i) (filter (\<lambda>(i, s). s = []) (enumerate 0 new_texts))"

definition remove_hearing_impaired :: "env \<Rightarrow> int list option \<Rightarrow> document \<Rightarrow> pattern list \<Rightarrow> project \<Rightarrow> (error + outcome) \<times> project" where
  "remove_hearing_impaired env indexes doc patterns pr =
     (if \<not> require indexes pr then (Inl InvalidIndex, pr)
      else
        (case get_parser env pr doc of
           Inl e \<Rightarrow> (Inl e, pr)
         | Inr parser \<Rightarrow>
             (case hearing_loop env pr doc (get_subtitutions patterns)
                     (indexes_or_all indexes pr) parser ([], []) of
                Inl e \<Rightarrow> (Inl e, pr)
              | Inr (parser1, new_indexes, texts) \<Rightarrow>
                  (case remove_leftover_spaces env texts parser1 of
                     Inl e \<Rightarrow> (Inl e, pr)
                   | Inr (new_texts, parser2) \<Rightarrow>
                       if new_indexes = [] then (Inr NoChange, pr)
                       else
                         (let d = ''Removing hearing impaired texts'';
                              pr1 = set_action_description d
                                      (replace_texts new_indexes doc new_texts pr);
                              remove_indexes = empty_text_indexes new_indexes new_texts
                          in if remove_indexes = [] then (Inr Changed, pr1)
                             else (Inr Changed,
                                   group_actions 2 d (remove_subtitles remove_indexes pr1)))))))"

subsection \<open>break_lines\<close>

definition maximum :: "int list \<Rightarrow> int" where
  "maximum xs = fold max (tl xs) (hd xs)"

text \<open>Line 115: every enabled pattern is compiled before the loop.\<close>

fun compile_all :: "env \<Rightarrow> (string \<times> nat \<times> string) list \<Rightarrow> error + (regex \<times> string) list" where
  "compile_all env [] = Inr []"
| "compile_all env ((x, y, z) # rest) =
     (case re_compile env x (Some y) of
        None \<Rightarrow> Inl BadPattern
      | Some r \<Rightarrow> (case compile_all env rest of Inl e \<Rightarrow> Inl e | Inr rs \<Rightarrow> Inr ((r, z) # rs)))"

text \<open>The loop over the indexes (lines 124 to 152). \<open>tagless_text\<close> is assigned before the
  line breaker runs (lines 127 to 129) and again after it only under the condition of
  line 139.\<close>

fun break_lines_loop :: "env \<Rightarrow> project \<Rightarrow> document \<Rightarrow> regex option \<Rightarrow> (string \<Rightarrow> int) \<Rightarrow> bool \<Rightarrow> int \<Rightarrow> int \<Rightarrow> nat list \<Rightarrow> liner \<Rightarrow> nat list \<times> string list \<Rightarrow> error + nat list \<times> string list" where
  "break_lines_loop env pr doc re_tag len_func skip max_skip_length max_skip_lines [] liner acc = Inr acc"
| "break_lines_loop env pr doc re_tag len_func skip max_skip_length max_skip_lines (index # rest) liner (new_indexes, new_texts) =
     (let subtitle = subtitles pr ! index;
          liner1 = liner\<lparr>liner_text := get_text subtitle doc\<rparr>;
          tagless_text = (case re_tag of
                            None \<Rightarrow> get_text subtitle doc
                          | Some r \<Rightarrow> re_sub_empty r (get_text subtitle doc));
          lines = split_lines tagless_text;
          length_before = maximum (map len_func lines);
          line_count = int (length lines)
      in if length_before \<le> max_skip_length \<and> line_count \<le> max_skip_lines \<and> skip then
           break_lines_loop env pr doc re_tag len_func skip max_skip_length max_skip_lines rest liner1
             (new_indexes, new_texts)
         else
           (case liner_break_lines env liner1 of
              Inl e \<Rightarrow> Inl e
            | Inr text \<Rightarrow>
                (let tagless_text1 = (case re_tag of
                                        None \<Rightarrow> tagless_text
                                      | Some r \<Rightarrow> re_sub_empty r text);
                     lines1 = split_lines tagless_text1;
                     length_down = (maximum (map len_func lines1) < length_before);
                     lines_down = (int (length lines1) < line_count);
                     length_fixed = (length_before > max_skip_length \<and> length_down);
                     lines_fixed = (line_count > max_skip_lines \<and> lines_down)
                 in if \<not> length_fixed \<and> \<not> lines_fixed \<and> skip then
                      break_lines_loop env pr doc re_tag len_func skip max_skip_length max_skip_lines
                        rest liner1 (new_indexes, new_texts)
                    else
                      break_lines_loop env pr doc re_tag len_func skip max_skip_length max_skip_lines
                        rest liner1
                        (if text \<noteq> get_text subtitle doc
                         then (new_indexes @ [index], new_texts @ [text])
                         else (new_indexes, new_texts)))))"

definition break_lines :: "env \<Rightarrow> int list option \<Rightarrow> document \<Rightarrow> pattern list \<Rightarrow> (string \<Rightarrow> int) \<Rightarrow> int \<Rightarrow> int \<Rightarrow> real \<Rightarrow> bool \<Rightarrow> int \<Rightarrow> int \<Rightarrow> project \<Rightarrow> (error + outcome) \<times> project" where
  "break_lines env indexes doc patterns len_func max_len max_lns max_dev skip max_skip_length max_skip_lines pr =
     (if \<not> require indexes pr then (Inl InvalidIndex, pr)
      else
        (case compile_all env (get_subtitutions patterns) of
           Inl e \<Rightarrow> (Inl e, pr)
         | Inr compiled \<Rightarrow>
             (case get_liner env pr doc of
                Inl e \<Rightarrow> (Inl e, pr)
              | Inr liner0 \<Rightarrow>
                  (let liner = liner0\<lparr>break_points := compiled, max_deviation := max_dev,
                                 max_length := max_len, max_lines := max_lns,
                                 length_func := len_func\<rparr>
                   in case get_markup_tag_regex env pr doc of
                        Inl e \<Rightarrow> (Inl e, pr)
                      | Inr re_tag \<Rightarrow>
                          (case break_lines_loop env pr doc re_tag len_func skip max_skip_length
                                  max_skip_lines (indexes_or_all indexes pr) liner ([], []) of
                             Inl e \<Rightarrow> (Inl e, pr)
                           | Inr (new_indexes, new_texts) \<Rightarrow>
                               if new_indexes = [] then (Inr NoChange, pr)
                               else (Inr Changed,
                                 set_action_description ''Breaking lines''
                                   (replace_texts new_indexes doc new_texts pr)))))))"

section \<open>A concrete environment\<close>

text \<open>
  \<open>re.compile\<close> on the sources that the concrete scenarios below use. With the flags left
  to the parser (\<open>None\<close>) these are the seven sources of \<open>_remove_leftover_spaces\<close>, read
  with MULTILINE and DOTALL, which the line anchors of \<^verbatim>\<open>^- (.*?^[^-])\<close> presuppose.
  With no flag set (\<open>Some 0\<close>) these are \<^verbatim>\<open>\[.*?\]\<close>, \<^verbatim>\<open>.+\<close> and every source made of
  letters, digits, underscores and spaces only, which matches itself. \<open>None\<close> is the answer on
  every other source; the scenarios use it only for the source \<^verbatim>\<open>(\<close>, which Python
  rejects with \<open>re.error\<close>.
\<close>

definition plus :: "regex \<Rightarrow> regex" where
  "plus r = Cat r (Star r)"

definition re_trim_space :: regex where
  "re_trim_space = Group 1 (Alt (Cat Bol (plus SpaceC)) (Cat (plus SpaceC) Eol))"

definition re_spaces :: regex where
  "re_spaces = Cat (Chr CHR '' '') (Cat (Chr CHR '' '') (Star (Chr CHR '' '')))"

definition re_nonword :: regex where
  "re_nonword = Cat Bol (Cat (Star NonWordC) Eol)"

definition re_trim_newline :: regex where
  "re_trim_newline = Group 1 (Alt (Cat Bol (Chr newline)) (Cat (Chr newline) Eol))"

definition re_dash :: regex where
  "re_dash = Cat Bol (Cat (Chr CHR ''-'') (Group 1 NonSpaceC))"

definition re_dash_merge :: regex where
  "re_dash_merge =
     Cat Bol (Cat (Chr CHR ''-'') (Cat (Chr CHR '' '')
       (Group 1 (Cat (LazyStar DotAll) (Cat Bol (NoneOf ''-''))))))"

definition re_dash_lone :: regex where
  "re_dash_lone =
     Cat Bos (Cat (Chr CHR ''-'') (Cat (Chr CHR '' '')
       (Cat (Group 1 (Star (NoneOf [newline]))) Eos)))"

definition src_brackets :: string where
  "src_brackets = [backslash] @ ''[.*?'' @ [backslash] @ '']''"

definition re_brackets :: regex where
  "re_brackets = Cat (Chr CHR ''['') (Cat (LazyStar Dot) (Chr CHR '']''))"

definition literal :: "string \<Rightarrow> regex" where
  "literal src = foldr (\<lambda>c r. Cat (Chr c) r) src Empty"

definition py_compile :: "string \<Rightarrow> nat option \<Rightarrow> regex option" where
  "py_compile src fl =
     (if fl = None then
        map_of [(src_trim_space, re_trim_space), (src_spaces, re_spaces),
                (src_nonword, re_nonword), (src_trim_newline, re_trim_newline),
                (src_dash, re_dash), (src_dash_merge, re_dash_merge),
                (src_dash_lone, re_dash_lone)] src
      else if fl = Some 0 then
        (if src = src_brackets then Some re_brackets
         else if src = ''.+'' then Some (plus Dot)
         else if list_all (\<lambda>c. is_word c \<or> c = CHR '' '') src then Some (literal src)
         else None)
      else None)"

text \<open>The tag pattern is \<^verbatim>\<open><.*?>\<close> for every format, and the line breaker returns the
  text as it is, unless a scenario says what it returns.\<close>

definition py_env :: env where
  "py_env = \<lparr>re_compile = py_compile,
             tag_of_format = (\<lambda>f. Cat (Chr CHR ''<'') (Cat (LazyStar Dot) (Chr CHR ''>''))),
             liner_break_lines = (\<lambda>liner. Inr (liner_text liner))\<rparr>"

definition new_project :: "string list \<Rightarrow> project" where
  "new_project texts =
     \<lparr>subtitles = map (\<lambda>s. \<lparr>main_text = s, tran_text = []\<rparr>) texts,
      main_file = None, tran_file = None, undoables = [], redoables = []\<rparr>"

definition simple_pattern :: "string \<Rightarrow> string \<Rightarrow> bool \<Rightarrow> bool \<Rightarrow> string \<Rightarrow> pattern" where
  "simple_pattern src repl en rep cap =
     \<lparr>pattern_field = src, flags = 0, replacement_field = repl, enabled = en,
      repeat_field = rep, capitalize_field = cap\<rparr>"

section \<open>What one pass does to a text\<close>

text \<open>
  The effect of the parser calls on the text alone, to state the theorems with:
  \<open>sub_text\<close> is \<open>set_regex\<close>, the assignment of the replacement and \<open>replace_all\<close>;
  \<open>pass_text\<close> is one such substitution for each pattern of a list, in its order;
  \<open>pipeline\<close> is one such substitution, with the flags left to the parser, for each
  pair of a source and a template, in the order of the list.
\<close>

definition sub_text :: "env \<Rightarrow> string \<Rightarrow> nat option \<Rightarrow> string \<Rightarrow> string \<Rightarrow> error + string" where
  "sub_text env src fl repl s =
     (case re_compile env src fl of
        None \<Rightarrow> Inl BadPattern
      | Some r \<Rightarrow>
          (case re_subn r repl s of
             None \<Rightarrow> Inl BadPattern
           | Some (s1, count) \<Rightarrow> Inr s1))"

fun pass_text :: "env \<Rightarrow> (string \<times> nat \<times> string) list \<Rightarrow> string \<Rightarrow> error + string" where
  "pass_text env [] s = Inr s"
| "pass_text env ((src, fl, repl) # rest) s =
     (case sub_text env src (Some fl) repl s of
        Inl e \<Rightarrow> Inl e
      | Inr s1 \<Rightarrow> pass_text env rest s1)"

fun pipeline :: "env \<Rightarrow> (string \<times> string) list \<Rightarrow> string \<Rightarrow> error + string" where
  "pipeline env [] s = Inr s"
| "pipeline env ((src, repl) # rest) s =
     (case sub_text env src None repl s of
        Inl e \<Rightarrow> Inl e
      | Inr s1 \<Rightarrow> pipeline env rest s1)"

definition text_of :: "project \<Rightarrow> document \<Rightarrow> nat \<Rightarrow> string" where
  "text_of pr doc i = get_text (subtitles pr ! i) doc"

text \<open>Whether the pass over the patterns changes the text of subtitle \<open>i\<close> (a pass that
  raises counts as a change here; the loops stop at it).\<close>

definition changed_by_pass :: "env \<Rightarrow> (string \<times> nat \<times> string) list \<Rightarrow> project \<Rightarrow> document \<Rightarrow> nat \<Rightarrow> bool" where
  "changed_by_pass env reps pr doc i =
     (pass_text env reps (text_of pr doc i) \<noteq> Inr (text_of pr doc i))"

text \<open>The sources and templates of lines 83 to 89 as a list, in the order of the source:
  trim leading and trailing whitespace; collapse two or more spaces; blank a text without
  word characters; trim a leading and a trailing newline; put a space after a leading
  dash; merge a dash-prefixed first line into a continuation without dash; strip a lone
  leading dash.\<close>

definition cleanup_steps :: "(string \<times> string) list" where
  "cleanup_steps =
     [(src_trim_space, []), (src_spaces, '' ''), (src_nonword, []), (src_trim_newline, []),
      (src_dash, ''- '' @ group1), (src_dash_merge, group1), (src_dash_lone, group1)]"

text \<open>The text of the first subtitle of the collection after \<open>_capitalize_position\<close> at
  position 0.\<close>

definition capitalized_first :: "project \<Rightarrow> document \<Rightarrow> string" where
  "capitalized_first pr doc =
     ptext (snd (capitalize_position (set_text (text_of pr doc 0) new_parser) 0))"

section \<open>Runs and what they contribute\<close>

text \<open>A run of consecutive integers, and a list of runs of which no two neighbours could be
  joined into one run: the runs are maximal.\<close>

fun consecutive :: "nat list \<Rightarrow> bool" where
  "consecutive [] = False"
| "consecutive [i] = True"
| "consecutive (i # j # r) = (j = Suc i \<and> consecutive (j # r))"

fun separated :: "nat list list \<Rightarrow> bool" where
  "separated (r1 # r2 # rs) = (Suc (last r1) \<noteq> hd r2 \<and> separated (r2 # rs))"
| "separated rs = True"

text \<open>Two parsers that show the same to \<open>next()\<close> (text, pattern and cursor); two results
  of the loop over the patterns that agree up to what the parser holds besides its text;
  the changes collected by a run, appended to changes collected before; and what a run
  contributes when it is processed on its own, from a new parser and with the carry-over
  off.\<close>

definition same_view :: "parser \<Rightarrow> parser \<Rightarrow> bool" where
  "same_view p q = (ptext p = ptext q \<and> regex p = regex q \<and> pos p = pos q)"

definition same_outcome :: "(error + bool \<times> parser) option \<Rightarrow> (error + bool \<times> parser) option \<Rightarrow> bool" where
  "same_outcome x y =
     (case x of
        None \<Rightarrow> y = None
      | Some (Inl e) \<Rightarrow> y = Some (Inl e)
      | Some (Inr (c, p)) \<Rightarrow> (\<exists>q. y = Some (Inr (c, q)) \<and> ptext p = ptext q))"

definition shift_changes :: "nat list \<times> string list \<Rightarrow> (error + parser \<times> nat list \<times> string list) option \<Rightarrow> (error + nat list \<times> string list) option" where
  "shift_changes acc x =
     (case x of
        None \<Rightarrow> None
      | Some (Inl e) \<Rightarrow> Some (Inl e)
      | Some (Inr (p, di, dt)) \<Rightarrow> Some (Inr (fst acc @ di, snd acc @ dt)))"

definition run_changes :: "env \<Rightarrow> project \<Rightarrow> document \<Rightarrow> pattern list \<Rightarrow> nat list \<Rightarrow> (error + nat list \<times> string list) option" where
  "run_changes env pr doc patterns run =
     shift_changes ([], []) (capitalize_run env pr doc patterns run new_parser False ([], []))"

section \<open>Lemmas: the parser calls and the text\<close>

lemma sub_step_Inr:
  assumes "set_regex env src fl start p = Inr p1"
    and "replace_all (p1\<lparr>replacement := repl\<rparr>) = Inr (count, p2)"
  shows "sub_text env src fl repl (ptext p) = Inr (ptext p2)"
  using assms
  by (auto simp: set_regex_def replace_all_def sub_text_def split: option.splits)

lemma sub_step_Inl:
  assumes "set_regex env src fl start p = Inr p1"
    and "replace_all (p1\<lparr>replacement := repl\<rparr>) = Inl e"
  shows "sub_text env src fl repl (ptext p) = Inl e"
  using assms
  by (auto simp: set_regex_def replace_all_def sub_text_def split: option.splits)

lemma sub_step_bad:
  assumes "set_regex env src fl start p = Inl e"
  shows "sub_text env src fl repl (ptext p) = Inl e"
  using assms
  by (auto simp: set_regex_def sub_text_def split: option.splits)

lemma hearing_patterns_pass:
  "(\<forall>p1. hearing_patterns env reps p = Inr p1 \<longrightarrow> pass_text env reps (ptext p) = Inr (ptext p1))
   \<and> (\<forall>e. hearing_patterns env reps p = Inl e \<longrightarrow> pass_text env reps (ptext p) = Inl e)"
proof (induction reps arbitrary: p)
  case Nil
  show ?case by simp
next
  case (Cons x reps)
  obtain src fl repl where x: "x = (src, fl, repl)" by (cases x)
  show ?case
  proof (cases "set_regex env src (Some fl) 0 p")
    case (Inl e)
    then show ?thesis using sub_step_bad [OF Inl, of repl] by (simp add: x)
  next
    case (Inr p1)
    show ?thesis
    proof (cases "replace_all (p1\<lparr>replacement := repl\<rparr>)")
      case (Inl e)
      then show ?thesis using sub_step_Inl [OF Inr Inl] Inr by (simp add: x)
    next
      case (Inr cp)
      obtain count p2 where cp: "cp = (count, p2)" by (cases cp)
      have "sub_text env src (Some fl) repl (ptext p) = Inr (ptext p2)"
        using sub_step_Inr [OF \<open>set_regex env src (Some fl) 0 p = Inr p1\<close>] Inr cp by simp
      then show ?thesis
        using Cons.IH [of p2] Inr cp \<open>set_regex env src (Some fl) 0 p = Inr p1\<close>
        by (simp add: x)
    qed
  qed
qed

lemma hearing_patterns_Inr:
  "hearing_patterns env reps p = Inr p1 \<Longrightarrow> pass_text env reps (ptext p) = Inr (ptext p1)"
  using hearing_patterns_pass by blast

lemma hearing_patterns_Inl:
  "hearing_patterns env reps p = Inl e \<Longrightarrow> pass_text env reps (ptext p) = Inl e"
  using hearing_patterns_pass by blast

lemma hearing_loop_result:
  "hearing_loop env pr doc reps idx p (ni, nt) = Inr (p1, ni1, nt1) \<Longrightarrow>
     ni1 = ni @ filter (changed_by_pass env reps pr doc) idx
   \<and> map Inr nt1 = map Inr nt @ map (\<lambda>i. pass_text env reps (text_of pr doc i))
                                   (filter (changed_by_pass env reps pr doc) idx)
   \<and> (\<forall>i \<in> set idx. \<exists>s. pass_text env reps (text_of pr doc i) = Inr s)"
proof (induction idx arbitrary: p ni nt)
  case Nil
  then show ?case by simp
next
  case (Cons i idx)
  let ?s = "text_of pr doc i"
  from Cons.prems obtain p2 where
    hp: "hearing_patterns env reps (set_text ?s p) = Inr p2"
    by (auto simp: Let_def text_of_def split: sum.splits)
  have pass: "pass_text env reps ?s = Inr (ptext p2)"
    using hearing_patterns_Inr [OF hp] by (simp add: set_text_def)
  show ?case
  proof (cases "ptext p2 = ?s")
    case True
    with Cons.prems hp have
      "hearing_loop env pr doc reps idx p2 (ni, nt) = Inr (p1, ni1, nt1)"
      by (simp add: Let_def text_of_def)
    from Cons.IH [OF this] pass True show ?thesis
      by (simp add: changed_by_pass_def)
  next
    case False
    with Cons.prems hp have
      "hearing_loop env pr doc reps idx p2 (ni @ [i], nt @ [ptext p2]) = Inr (p1, ni1, nt1)"
      by (simp add: Let_def text_of_def)
    from Cons.IH [OF this] pass False show ?thesis
      by (simp add: changed_by_pass_def)
  qed
qed

lemma hearing_loop_error:
  "hearing_loop env pr doc reps idx p acc = Inl e \<Longrightarrow>
     \<exists>i \<in> set idx. pass_text env reps (text_of pr doc i) = Inl e"
proof (induction idx arbitrary: p acc)
  case Nil
  then show ?case by simp
next
  case (Cons i idx)
  obtain ni nt where acc: "acc = (ni, nt)" by (cases acc)
  show ?case
  proof (cases "hearing_patterns env reps (set_text (text_of pr doc i) p)")
    case (Inl e')
    with Cons.prems have "e' = e" by (simp add: acc Let_def text_of_def)
    with hearing_patterns_Inl [OF Inl] show ?thesis by (simp add: set_text_def)
  next
    case (Inr p2)
    with Cons.prems obtain acc' where "hearing_loop env pr doc reps idx p2 acc' = Inl e"
      by (auto simp: acc Let_def text_of_def split: if_splits)
    from Cons.IH [OF this] show ?thesis by auto
  qed
qed

lemma substitute_Inr:
  "substitute env src repl p = Inr p1 \<Longrightarrow> sub_text env src None repl (ptext p) = Inr (ptext p1)"
  by (auto simp: substitute_def set_regex_def replace_all_def sub_text_def split: option.splits sum.splits)

lemma substitute_Inl:
  "substitute env src repl p = Inl e \<Longrightarrow> sub_text env src None repl (ptext p) = Inl e"
  by (auto simp: substitute_def set_regex_def replace_all_def sub_text_def split: option.splits sum.splits)

lemma and_then_substitute:
  "and_then (substitute env src repl p) f = Inr p2 \<Longrightarrow>
     \<exists>p1. sub_text env src None repl (ptext p) = Inr (ptext p1) \<and> f p1 = Inr p2"
  by (cases "substitute env src repl p") (auto simp: and_then_def dest: substitute_Inr)

lemma leftover_spaces_text_Inr:
  assumes "leftover_spaces_text env s p = Inr p7"
  shows "pipeline env cleanup_steps s = Inr (ptext p7)"
proof -
  have r0: "and_then (substitute env src_trim_space [] (set_text s p)) (\<lambda>parser.
         and_then (substitute env src_spaces '' '' parser) (\<lambda>parser.
         and_then (substitute env src_nonword [] parser) (\<lambda>parser.
         and_then (substitute env src_trim_newline [] parser) (\<lambda>parser.
         and_then (substitute env src_dash (''- '' @ group1) parser) (\<lambda>parser.
         and_then (substitute env src_dash_merge group1 parser) (\<lambda>parser.
         substitute env src_dash_lone group1 parser)))))) = Inr p7"
    using assms unfolding leftover_spaces_text_def .
  from and_then_substitute [OF r0] obtain p1 where
    1: "sub_text env src_trim_space None [] (ptext (set_text s p)) = Inr (ptext p1)" and
    r1: "and_then (substitute env src_spaces '' '' p1) (\<lambda>parser.
         and_then (substitute env src_nonword [] parser) (\<lambda>parser.
         and_then (substitute env src_trim_newline [] parser) (\<lambda>parser.
         and_then (substitute env src_dash (''- '' @ group1) parser) (\<lambda>parser.
         and_then (substitute env src_dash_merge group1 parser) (\<lambda>parser.
         substitute env src_dash_lone group1 parser))))) = Inr p7"
    by blast
  have 0: "ptext (set_text s p) = s" by (simp add: set_text_def)
  from and_then_substitute [OF r1] obtain p2 where
    2: "sub_text env src_spaces None '' '' (ptext p1) = Inr (ptext p2)" and
    r2: "and_then (substitute env src_nonword [] p2) (\<lambda>parser.
         and_then (substitute env src_trim_newline [] parser) (\<lambda>parser.
         and_then (substitute env src_dash (''- '' @ group1) parser) (\<lambda>parser.
         and_then (substitute env src_dash_merge group1 parser) (\<lambda>parser.
         substitute env src_dash_lone group1 parser)))) = Inr p7"
    by blast
  from and_then_substitute [OF r2] obtain p3 where
    3: "sub_text env src_nonword None [] (ptext p2) = Inr (ptext p3)" and
    r3: "and_then (substitute env src_trim_newline [] p3) (\<lambda>parser.
         and_then (substitute env src_dash (''- '' @ group1) parser) (\<lambda>parser.
         and_then (substitute env src_dash_merge group1 parser) (\<lambda>parser.
         substitute env src_dash_lone group1 parser))) = Inr p7"
    by blast
  from and_then_substitute [OF r3] obtain p4 where
    4: "sub_text env src_trim_newline None [] (ptext p3) = Inr (ptext p4)" and
    r4: "and_then (substitute env src_dash (''- '' @ group1) p4) (\<lambda>parser.
         and_then (substitute env src_dash_merge group1 parser) (\<lambda>parser.
         substitute env src_dash_lone group1 parser)) = Inr p7"
    by blast
  from and_then_substitute [OF r4] obtain p5 where
    5: "sub_text env src_dash None (''- '' @ group1) (ptext p4) = Inr (ptext p5)" and
    r5: "and_then (substitute env src_dash_merge group1 p5) (\<lambda>parser.
         substitute env src_dash_lone group1 parser) = Inr p7"
    by blast
  from and_then_substitute [OF r5] obtain p6 where
    6: "sub_text env src_dash_merge None group1 (ptext p5) = Inr (ptext p6)" and
    r6: "substitute env src_dash_lone group1 p6 = Inr p7"
    by blast
  have 7: "sub_text env src_dash_lone None group1 (ptext p6) = Inr (ptext p7)"
    using substitute_Inr [OF r6] .
  show ?thesis
    using 1 2 3 4 5 6 7 by (simp add: cleanup_steps_def 0)
qed

lemma leftover_spaces_loop_result:
  "leftover_spaces_loop env (enumerate n xs) texts p = Inr (texts1, p1) \<Longrightarrow>
   length texts = n + length xs \<Longrightarrow>
     map Inr texts1 = map Inr (take n texts) @ map (pipeline env cleanup_steps) xs"
proof (induction xs arbitrary: n texts p)
  case Nil
  then show ?case by simp
next
  case (Cons x xs)
  from Cons.prems(1) obtain p2 where
    t: "leftover_spaces_text env x p = Inr p2" and
    l: "leftover_spaces_loop env (enumerate (Suc n) xs) (texts[n := ptext p2]) p2 = Inr (texts1, p1)"
    by (auto split: sum.splits)
  have len: "length (texts[n := ptext p2]) = Suc n + length xs"
    using Cons.prems(2) by simp
  have "take (Suc n) (texts[n := ptext p2]) = take n texts @ [ptext p2]"
    using Cons.prems(2) by (simp add: take_Suc_conv_app_nth)
  with Cons.IH [OF l len] leftover_spaces_text_Inr [OF t] show ?case
    by simp
qed

lemma remove_leftover_spaces_result:
  "remove_leftover_spaces env texts p = Inr (texts1, p1) \<Longrightarrow>
     map Inr texts1 = map (pipeline env cleanup_steps) texts"
  unfolding remove_leftover_spaces_def
  using leftover_spaces_loop_result [of env 0 texts texts p texts1 p1] by simp

lemma undoables_replace_texts:
  "undoables (set_action_description d (replace_texts ni doc nt pr)) =
     undoables pr @ [\<lparr>description = d, operations = [ReplaceTexts ni doc nt]\<rparr>]"
  by (simp add: set_action_description_def replace_texts_def commit_def)

lemma undoables_group_remove:
  assumes "undoables pr1 = us @ [a]"
  shows "undoables (group_actions 2 d (remove_subtitles ri pr1)) =
     us @ [\<lparr>description = d, operations = operations a @ [RemoveSubtitles ri]\<rparr>]"
  using assms by (simp add: group_actions_def remove_subtitles_def commit_def Let_def)

lemma hearing_committed:
  assumes "remove_hearing_impaired env indexes doc patterns pr = (Inr Changed, pr1)"
  shows "\<exists>new_texts rest.
     operations (last (undoables pr1)) =
       ReplaceTexts (filter (changed_by_pass env (get_subtitutions patterns) pr doc)
                      (indexes_or_all indexes pr)) doc new_texts # rest
   \<and> map Inr new_texts =
       map (\<lambda>i. case pass_text env (get_subtitutions patterns) (text_of pr doc i) of
                  Inl e \<Rightarrow> Inl e
                | Inr s \<Rightarrow> pipeline env cleanup_steps s)
         (filter (changed_by_pass env (get_subtitutions patterns) pr doc)
            (indexes_or_all indexes pr))"
proof -
  let ?reps = "get_subtitutions patterns"
  let ?idx = "indexes_or_all indexes pr"
  let ?changed = "filter (changed_by_pass env ?reps pr doc) ?idx"
  from assms obtain parser p1 ni texts nt p2 where
    loop: "hearing_loop env pr doc ?reps ?idx parser ([], []) = Inr (p1, ni, texts)" and
    clean: "remove_leftover_spaces env texts p1 = Inr (nt, p2)" and
    res: "pr1 = (let d = ''Removing hearing impaired texts'';
                    pr1 = set_action_description d (replace_texts ni doc nt pr);
                    remove_indexes = empty_text_indexes ni nt
                in if remove_indexes = [] then pr1
                   else group_actions 2 d (remove_subtitles remove_indexes pr1))"
    by (auto simp: remove_hearing_impaired_def Let_def split: if_splits sum.splits)
  from hearing_loop_result [OF loop] have
    ni: "ni = ?changed" and
    texts: "map Inr texts = map (\<lambda>i. pass_text env ?reps (text_of pr doc i)) ?changed"
    by simp_all
  from remove_leftover_spaces_result [OF clean] have
    nt: "map Inr nt = map (pipeline env cleanup_steps) texts" .
  have "map (pipeline env cleanup_steps) texts =
        map (\<lambda>x. case x of Inl e \<Rightarrow> Inl e | Inr s \<Rightarrow> pipeline env cleanup_steps s) (map Inr texts)"
    by (simp add: comp_def)
  also have "\<dots> = map (\<lambda>i. case pass_text env ?reps (text_of pr doc i) of
                  Inl e \<Rightarrow> Inl e | Inr s \<Rightarrow> pipeline env cleanup_steps s) ?changed"
    by (simp only: texts) (simp add: comp_def)
  finally have nt': "map Inr nt = map (\<lambda>i. case pass_text env ?reps (text_of pr doc i) of
                  Inl e \<Rightarrow> Inl e | Inr s \<Rightarrow> pipeline env cleanup_steps s) ?changed"
    using nt by simp
  have "\<exists>rest. operations (last (undoables pr1)) = ReplaceTexts ni doc nt # rest"
  proof (cases "empty_text_indexes ni nt = []")
    case True
    with res show ?thesis by (simp add: Let_def undoables_replace_texts)
  next
    case False
    with res show ?thesis
      by (simp add: Let_def undoables_group_remove [OF undoables_replace_texts])
  qed
  with ni nt' show ?thesis by auto
qed

lemma hearing_all_unchanged:
  assumes "require indexes pr" and "doc \<noteq> OtherDocument"
    and "\<forall>i \<in> set (indexes_or_all indexes pr).
           pass_text env (get_subtitutions patterns) (text_of pr doc i) = Inr (text_of pr doc i)"
  shows "remove_hearing_impaired env indexes doc patterns pr = (Inr NoChange, pr)"
proof -
  let ?reps = "get_subtitutions patterns"
  let ?idx = "indexes_or_all indexes pr"
  have parser: "get_parser env pr doc = Inr new_parser"
    using assms(2)
    by (cases doc) (auto simp: get_parser_def get_markup_tag_regex_def get_format_def split: option.splits)
  show ?thesis
  proof (cases "hearing_loop env pr doc ?reps ?idx new_parser ([], [])")
    case (Inl e)
    from hearing_loop_error [OF Inl] assms(3) show ?thesis by auto
  next
    case (Inr res)
    obtain p1 ni nt where res: "res = (p1, ni, nt)" by (cases res)
    from hearing_loop_result [OF Inr [unfolded res]] assms(3) have "ni = []" and "map Inr nt = ([] :: (error + string) list)"
      by (simp_all add: changed_by_pass_def)
    then have "ni = []" and "nt = []" by simp_all
    then show ?thesis
      using assms(1) parser Inr res
      by (simp add: remove_hearing_impaired_def remove_leftover_spaces_def)
  qed
qed

section \<open>Lemmas: correct_common_errors without repetition\<close>

lemma repeat_replace_all_off: "repeat_replace_all False count p = Some (Inr p)"
  by (subst repeat_replace_all.simps) simp

lemma correct_patterns_no_repeat:
  "\<forall>(i, x) \<in> set xs. \<not> repeats ! i \<Longrightarrow>
     correct_patterns env repeats xs p = Some (hearing_patterns env (map snd xs) p)"
proof (induction xs arbitrary: p)
  case Nil
  then show ?case by simp
next
  case (Cons x xs)
  obtain i src fl repl where x: "x = (i, src, fl, repl)" by (cases x)
  from Cons.prems have off: "\<not> repeats ! i" and rest: "\<forall>(i, x) \<in> set xs. \<not> repeats ! i"
    by (simp_all add: x)
  show ?case
    using Cons.IH [OF rest] off
    by (simp add: x repeat_replace_all_off split: sum.splits)
qed

lemma map_snd_enumerate: "map snd (enumerate n xs) = xs"
  by (induction xs arbitrary: n) simp_all

lemma correct_loop_no_repeat:
  assumes "\<forall>(i, x) \<in> set (enumerate 0 reps). \<not> repeats ! i"
  shows "correct_loop env pr doc repeats reps idx p acc =
     Some (case hearing_loop env pr doc reps idx p acc of
             Inl e \<Rightarrow> Inl e
           | Inr (p1, acc1) \<Rightarrow> Inr acc1)"
proof (induction idx arbitrary: p acc)
  case Nil
  show ?case by (cases acc) simp
next
  case (Cons i idx)
  obtain ni nt where acc: "acc = (ni, nt)" by (cases acc)
  show ?case
    by (simp add: acc Let_def correct_patterns_no_repeat [OF assms] map_snd_enumerate Cons.IH
          split: sum.splits)
qed

lemma repeats_all_off:
  assumes "\<forall>p \<in> set patterns. \<not> repeat_field p"
  shows "\<forall>(i, x) \<in> set (enumerate 0 (get_subtitutions patterns)). \<not> map repeat_field patterns ! i"
proof -
  have len: "length (get_subtitutions patterns) \<le> length patterns"
    by (simp add: get_subtitutions_def)
  show ?thesis
  proof (clarify)
    fix i a b c
    assume "(i, a, b, c) \<in> set (enumerate 0 (get_subtitutions patterns))"
      and on: "map repeat_field patterns ! i"
    then have "i < length (get_subtitutions patterns)"
      by (auto simp: in_set_enumerate_eq)
    with len have "i < length patterns" by simp
    with assms on show False by (simp add: all_set_conv_all_nth)
  qed
qed

lemma length_fold_update:
  "length (fold (\<lambda>(i, s) subs. subs[i := f s (subs ! i)]) xs ys) = length ys"
  by (induction xs arbitrary: ys) (auto)

lemma length_replace_texts:
  "length (subtitles (set_action_description d (replace_texts ni doc nt pr))) = length (subtitles pr)"
  by (simp add: set_action_description_def replace_texts_def commit_def length_fold_update)

lemma files_replace_texts:
  "main_file (set_action_description d (replace_texts ni doc nt pr)) = main_file pr"
  "tran_file (set_action_description d (replace_texts ni doc nt pr)) = tran_file pr"
  by (simp_all add: set_action_description_def replace_texts_def commit_def)

lemma get_parser_valid: "doc \<noteq> OtherDocument \<Longrightarrow> get_parser env pr doc = Inr new_parser"
  by (cases doc) (auto simp: get_parser_def get_markup_tag_regex_def get_format_def split: option.splits)

lemma get_parser_invalid: "get_parser env pr OtherDocument = Inl InvalidDocument"
  by (simp add: get_parser_def get_markup_tag_regex_def get_format_def)

lemma correct_common_errors_no_repeat:
  assumes "\<forall>p \<in> set patterns. \<not> repeat_field p"
    and "require indexes pr" and "doc \<noteq> OtherDocument"
  shows "correct_common_errors env indexes doc patterns pr = Some (Inr NoChange, pr) \<longleftrightarrow>
     (\<forall>i \<in> set (indexes_or_all indexes pr).
        pass_text env (get_subtitutions patterns) (text_of pr doc i) = Inr (text_of pr doc i))"
proof -
  let ?reps = "get_subtitutions patterns"
  let ?idx = "indexes_or_all indexes pr"
  have loop: "correct_loop env pr doc (map repeat_field patterns) ?reps ?idx new_parser ([], []) =
     Some (case hearing_loop env pr doc ?reps ?idx new_parser ([], []) of
             Inl e \<Rightarrow> Inl e
           | Inr (p1, acc1) \<Rightarrow> Inr acc1)"
    using correct_loop_no_repeat [OF repeats_all_off [OF assms(1)]] .
  show ?thesis
  proof (cases "hearing_loop env pr doc ?reps ?idx new_parser ([], [])")
    case (Inl e)
    from hearing_loop_error [OF Inl] obtain i where
      "i \<in> set ?idx" and "pass_text env ?reps (text_of pr doc i) = Inl e"
      by blast
    then have "\<exists>i \<in> set ?idx. pass_text env ?reps (text_of pr doc i) \<noteq> Inr (text_of pr doc i)"
      by (intro bexI [of _ i]) simp_all
    then have "\<not> (\<forall>i \<in> set ?idx. pass_text env ?reps (text_of pr doc i) = Inr (text_of pr doc i))"
      by blast
    moreover have "correct_common_errors env indexes doc patterns pr = Some (Inl e, pr)"
      using assms(2) get_parser_valid [OF assms(3)] loop Inl
      by (simp add: correct_common_errors_def)
    ultimately show ?thesis by simp
  next
    case (Inr res)
    obtain p1 ni nt where res: "res = (p1, ni, nt)" by (cases res)
    from hearing_loop_result [OF Inr [unfolded res]] have
      ni: "ni = filter (changed_by_pass env ?reps pr doc) ?idx"
      by simp
    have "correct_common_errors env indexes doc patterns pr = Some (Inr NoChange, pr) \<longleftrightarrow> ni = []"
      using assms(2) get_parser_valid [OF assms(3)] loop Inr res
      by (simp add: correct_common_errors_def)
    also have "\<dots> \<longleftrightarrow> (\<forall>i \<in> set ?idx. \<not> changed_by_pass env ?reps pr doc i)"
      by (simp add: ni filter_empty_conv)
    finally show ?thesis by (simp add: changed_by_pass_def)
  qed
qed

lemma correct_common_errors_returns:
  assumes "correct_common_errors env indexes doc patterns pr = Some (Inr out, pr1)"
  shows "require indexes pr \<and> doc \<noteq> OtherDocument
     \<and> length (subtitles pr1) = length (subtitles pr)"
proof -
  from assms have r: "require indexes pr"
    by (auto simp: correct_common_errors_def split: if_splits)
  from assms r have d: "doc \<noteq> OtherDocument"
    by (auto simp: correct_common_errors_def get_parser_invalid)
  from assms r have "length (subtitles pr1) = length (subtitles pr)"
    by (auto simp: correct_common_errors_def Let_def get_parser_valid [OF d] length_replace_texts
          split: option.splits sum.splits if_splits)
  with r d show ?thesis by simp
qed

section \<open>Lemmas: capitalize without an enabled pattern\<close>

lemma concat_add_to_ranges: "concat (add_to_ranges i rs) = i # concat rs"
  by (induction i rs rule: add_to_ranges.induct) simp_all

lemma concat_get_ranges: "concat (get_ranges indexes) = sort (remdups indexes)"
proof -
  have "concat (foldr add_to_ranges xs []) = xs" for xs
    by (induction xs) (simp_all add: concat_add_to_ranges)
  then show ?thesis by (simp add: get_ranges_def)
qed

lemma capitalize_position_ptext:
  "ptext (snd (capitalize_position p n)) =
   ptext (snd (capitalize_position (set_text (ptext p) new_parser) n))"
  by (simp add: capitalize_position_def set_text_def new_parser_def Let_def split: option.splits)

lemma capitalize_subtitle_no_patterns:
  assumes "\<forall>x \<in> set patterns. \<not> enabled x"
  shows "capitalize_subtitle env patterns p False index s =
     Some (Inr (False, if index = 0 then snd (capitalize_position (set_text s p) 0)
                       else set_text s p))"
proof -
  from assms have "filter enabled patterns = []" by (simp add: filter_empty_conv)
  then show ?thesis by (simp add: capitalize_subtitle_def Let_def)
qed

lemma capitalize_run_step_no_patterns:
  assumes "\<forall>x \<in> set patterns. \<not> enabled x"
  shows "\<exists>p1. capitalize_run env pr doc patterns (i # run) p False (ni, nt) =
     capitalize_run env pr doc patterns run p1 False
       (if i = 0 \<and> capitalized_first pr doc \<noteq> text_of pr doc 0
        then (ni @ [i], nt @ [capitalized_first pr doc]) else (ni, nt))"
proof (cases "i = 0")
  case True
  have eq: "ptext (snd (capitalize_position (set_text (get_text (subtitles pr ! 0) doc) p) 0)) =
            capitalized_first pr doc"
    using capitalize_position_ptext [of "set_text (get_text (subtitles pr ! 0) doc) p" 0]
    by (simp add: capitalized_first_def text_of_def set_text_def)
  show ?thesis
    by (rule exI [of _ "snd (capitalize_position (set_text (get_text (subtitles pr ! 0) doc) p) 0)"])
       (simp add: True Let_def capitalize_subtitle_no_patterns [OF assms] eq text_of_def)
next
  case False
  show ?thesis
    by (rule exI [of _ "set_text (get_text (subtitles pr ! i) doc) p"])
       (simp add: False Let_def capitalize_subtitle_no_patterns [OF assms] set_text_def)
qed

lemma capitalize_run_no_patterns:
  assumes "\<forall>x \<in> set patterns. \<not> enabled x"
  shows "\<exists>p1. capitalize_run env pr doc patterns run p False (ni, nt) =
     Some (Inr (p1,
       ni @ filter (\<lambda>i. i = 0 \<and> capitalized_first pr doc \<noteq> text_of pr doc 0) run,
       nt @ map (\<lambda>i. capitalized_first pr doc)
              (filter (\<lambda>i. i = 0 \<and> capitalized_first pr doc \<noteq> text_of pr doc 0) run)))"
proof (induction run arbitrary: p ni nt)
  case Nil
  show ?case by simp
next
  case (Cons i run)
  from capitalize_run_step_no_patterns [OF assms, of env pr doc i run p ni nt] obtain p1 where
    step: "capitalize_run env pr doc patterns (i # run) p False (ni, nt) =
     capitalize_run env pr doc patterns run p1 False
       (if i = 0 \<and> capitalized_first pr doc \<noteq> text_of pr doc 0
        then (ni @ [i], nt @ [capitalized_first pr doc]) else (ni, nt))"
    by blast
  show ?case
  proof (cases "i = 0 \<and> capitalized_first pr doc \<noteq> text_of pr doc 0")
    case True
    from Cons.IH [of p1 "ni @ [i]" "nt @ [capitalized_first pr doc]"] obtain p2 where
      "capitalize_run env pr doc patterns run p1 False (ni @ [i], nt @ [capitalized_first pr doc]) =
       Some (Inr (p2,
         (ni @ [i]) @ filter (\<lambda>i. i = 0 \<and> capitalized_first pr doc \<noteq> text_of pr doc 0) run,
         (nt @ [capitalized_first pr doc]) @ map (\<lambda>i. capitalized_first pr doc)
              (filter (\<lambda>i. i = 0 \<and> capitalized_first pr doc \<noteq> text_of pr doc 0) run)))"
      by blast
    with step True show ?thesis by (intro exI [of _ p2]) simp
  next
    case False
    from Cons.IH [of p1 ni nt] obtain p2 where
      "capitalize_run env pr doc patterns run p1 False (ni, nt) =
       Some (Inr (p2,
         ni @ filter (\<lambda>i. i = 0 \<and> capitalized_first pr doc \<noteq> text_of pr doc 0) run,
         nt @ map (\<lambda>i. capitalized_first pr doc)
              (filter (\<lambda>i. i = 0 \<and> capitalized_first pr doc \<noteq> text_of pr doc 0) run)))"
      by blast
    with step False show ?thesis by (intro exI [of _ p2]) auto
  qed
qed

lemma capitalize_ranges_no_patterns:
  assumes "\<forall>x \<in> set patterns. \<not> enabled x"
  shows "capitalize_ranges env pr doc patterns runs p (ni, nt) =
     Some (Inr
       (ni @ filter (\<lambda>i. i = 0 \<and> capitalized_first pr doc \<noteq> text_of pr doc 0) (concat runs),
        nt @ map (\<lambda>i. capitalized_first pr doc)
               (filter (\<lambda>i. i = 0 \<and> capitalized_first pr doc \<noteq> text_of pr doc 0) (concat runs))))"
proof (induction runs arbitrary: p ni nt)
  case Nil
  show ?case by simp
next
  case (Cons run runs)
  from capitalize_run_no_patterns [OF assms, of env pr doc run p ni nt] obtain p1 where
    "capitalize_run env pr doc patterns run p False (ni, nt) =
     Some (Inr (p1,
       ni @ filter (\<lambda>i. i = 0 \<and> capitalized_first pr doc \<noteq> text_of pr doc 0) run,
       nt @ map (\<lambda>i. capitalized_first pr doc)
              (filter (\<lambda>i. i = 0 \<and> capitalized_first pr doc \<noteq> text_of pr doc 0) run)))"
    by blast
  then show ?case by (simp add: Cons.IH)
qed

lemma filter_zero_distinct:
  "distinct xs \<Longrightarrow> filter (\<lambda>i. i = (0::nat) \<and> b) xs = (if 0 \<in> set xs \<and> b then [0] else [])"
  by (induction xs) auto

section \<open>Lemmas: errors leave the project as it is\<close>


























section \<open>Lemmas: the runs of capitalize are independent\<close>

lemma next_match_view:
  assumes "same_view p q"
  shows "(next_match p = None \<longrightarrow> next_match q = None)
   \<and> (\<forall>a z p1. next_match p = Some ((a, z), p1) \<longrightarrow>
         (\<exists>q1. next_match q = Some ((a, z), q1) \<and> same_view p1 q1))"
  using assms
  by (auto simp: next_match_def same_view_def split: option.splits)

lemma capitalize_position_view:
  assumes "ptext p = ptext q"
  shows "fst (capitalize_position p n) = fst (capitalize_position q n)
   \<and> ptext (snd (capitalize_position p n)) = ptext (snd (capitalize_position q n))
   \<and> regex (snd (capitalize_position p n)) = regex p
   \<and> pos (snd (capitalize_position p n)) = pos p"
  using assms
  by (auto simp: capitalize_position_def Let_def split: option.splits)

lemma capitalize_position_same_view:
  assumes "same_view p q"
  shows "same_view (snd (capitalize_position p n)) (snd (capitalize_position q n))"
  using assms capitalize_position_view [of p q n] capitalize_position_view [of q q n]
  by (simp add: same_view_def)

lemma capitalize_text_view_Some:
  assumes "capitalize_text p pat c = Some y"
  shows "\<forall>q. same_view p q \<longrightarrow>
        (\<exists>q1. capitalize_text q pat c = Some (fst y, q1) \<and> same_view (snd y) q1)"
proof (rule capitalize_text.raw_induct
    [where P = "\<lambda>p pat c y. \<forall>q. same_view p q \<longrightarrow>
        (\<exists>q1. capitalize_text q pat c = Some (fst y, q1) \<and> same_view (snd y) q1)",
     OF _ assms])
  fix f :: "parser \<Rightarrow> pattern \<Rightarrow> bool \<Rightarrow> (bool \<times> parser) option"
  fix p pat c y
  assume IH: "\<And>p pat c y. f p pat c = Some y \<Longrightarrow>
      \<forall>q. same_view p q \<longrightarrow>
        (\<exists>q1. capitalize_text q pat c = Some (fst y, q1) \<and> same_view (snd y) q1)"
  assume body: "(case next_match p of
        None \<Rightarrow> Some (c, p)
      | Some ((a, z), parser1) \<Rightarrow>
          if capitalize_field pat = ''Start'' then
            f (snd (capitalize_position parser1 a)) pat c
          else if capitalize_field pat = ''After'' then
            f (snd (capitalize_position parser1 z)) pat
              (\<not> fst (capitalize_position parser1 z))
          else f parser1 pat c) = Some y"
  show "\<forall>q. same_view p q \<longrightarrow>
        (\<exists>q1. capitalize_text q pat c = Some (fst y, q1) \<and> same_view (snd y) q1)"
  proof (intro allI impI)
    fix q
    assume v: "same_view p q"
    show "\<exists>q1. capitalize_text q pat c = Some (fst y, q1) \<and> same_view (snd y) q1"
    proof (cases "next_match p")
      case None
      with next_match_view [OF v] have nq: "next_match q = None" by simp
      from body None have "y = (c, p)" by simp
      with nq v show ?thesis
        by (subst capitalize_text.simps) simp
    next
      case (Some m)
      obtain a z p1 where m: "m = ((a, z), p1)" by (cases m) auto
      from next_match_view [OF v] Some m obtain q1 where
        nq: "next_match q = Some ((a, z), q1)" and v1: "same_view p1 q1"
        by blast
      from v1 have t1: "ptext p1 = ptext q1" by (simp add: same_view_def)
      show ?thesis
      proof (cases "capitalize_field pat = ''Start''")
        case True
        from body Some m True have "f (snd (capitalize_position p1 a)) pat c = Some y"
          by simp
        from IH [OF this] capitalize_position_same_view [OF v1, of a] obtain q2 where
          "capitalize_text (snd (capitalize_position q1 a)) pat c = Some (fst y, q2)"
          "same_view (snd y) q2"
          by blast
        with nq True show ?thesis
          by (subst capitalize_text.simps) simp
      next
        case False
        note notStart = False
        show ?thesis
        proof (cases "capitalize_field pat = ''After''")
          case True
          from body Some m True notStart have
            "f (snd (capitalize_position p1 z)) pat (\<not> fst (capitalize_position p1 z)) = Some y"
            by simp
          from IH [OF this] capitalize_position_same_view [OF v1, of z] obtain q2 where
            "capitalize_text (snd (capitalize_position q1 z)) pat
               (\<not> fst (capitalize_position p1 z)) = Some (fst y, q2)"
            "same_view (snd y) q2"
            by blast
          with nq True notStart capitalize_position_view [OF t1, of z] show ?thesis
            by (subst capitalize_text.simps) simp
        next
          case False
          from body Some m False notStart have "f p1 pat c = Some y"
            by simp
          from IH [OF this] v1 obtain q2 where
            "capitalize_text q1 pat c = Some (fst y, q2)" "same_view (snd y) q2"
            by blast
          with nq False notStart show ?thesis
            by (subst capitalize_text.simps) simp
        qed
      qed
    qed
  qed
qed


lemma same_view_sym: "same_view p q \<Longrightarrow> same_view q p"
  by (simp add: same_view_def)

lemma capitalize_text_view_None:
  assumes "same_view p q" and "capitalize_text p pat c = None"
  shows "capitalize_text q pat c = None"
proof (cases "capitalize_text q pat c")
  case None
  then show ?thesis .
next
  case (Some y)
  from capitalize_text_view_Some [OF Some] same_view_sym [OF assms(1)] assms(2)
  show ?thesis by auto
qed

lemma capitalize_patterns_view:
  "ptext p = ptext q \<Longrightarrow>
     same_outcome (capitalize_patterns env ps p c) (capitalize_patterns env ps q c)"
proof (induction ps arbitrary: p q c)
  case Nil
  then show ?case by (simp add: same_outcome_def)
next
  case (Cons pat ps)
  show ?case
  proof (cases "re_compile env (pattern_field pat) (Some (flags pat))")
    case None
    then show ?thesis by (simp add: set_regex_def same_outcome_def)
  next
    case (Some r)
    let ?p = "p\<lparr>regex := Some r, pos := 0\<rparr>"
    let ?q = "q\<lparr>regex := Some r, pos := 0\<rparr>"
    have v: "same_view ?p ?q" using Cons.prems by (simp add: same_view_def)
    show ?thesis
    proof (cases "capitalize_text ?p pat c")
      case None
      from capitalize_text_view_None [OF v None] None Some show ?thesis
        by (simp add: set_regex_def same_outcome_def)
    next
      case (Some y)
      obtain c1 p1 where y: "y = (c1, p1)" by (cases y)
      from capitalize_text_view_Some [OF Some] v obtain q1 where
        q1: "capitalize_text ?q pat c = Some (c1, q1)" and v1: "same_view p1 q1"
        by (auto simp: y)
      from v1 have "ptext p1 = ptext q1" by (simp add: same_view_def)
      from Cons.IH [OF this, of c1] Some q1 \<open>re_compile env (pattern_field pat) (Some (flags pat)) = Some r\<close>
      show ?thesis
        by (simp add: set_regex_def y)
    qed
  qed
qed

lemma capitalize_subtitle_view:
  "same_outcome (capitalize_subtitle env patterns p c i s) (capitalize_subtitle env patterns q c i s)"
proof -
  have t: "ptext (set_text s p) = ptext (set_text s q)" by (simp add: set_text_def)
  have "ptext (snd (capitalize_position (set_text s p) 0)) =
        ptext (snd (capitalize_position (set_text s q) 0))"
    using capitalize_position_view [OF t] by simp
  with t show ?thesis
    by (simp add: capitalize_subtitle_def Let_def capitalize_patterns_view)
qed

lemma capitalize_run_view:
  "shift_changes acc (capitalize_run env pr doc patterns run p c ([], [])) =
   shift_changes ([], []) (capitalize_run env pr doc patterns run q c acc)"
proof (induction run arbitrary: p q c acc)
  case Nil
  show ?case by (simp add: shift_changes_def)
next
  case (Cons i run)
  obtain ni nt where acc: "acc = (ni, nt)" by (cases acc)
  let ?s = "get_text (subtitles pr ! i) doc"
  have so: "same_outcome (capitalize_subtitle env patterns p c i ?s)
              (capitalize_subtitle env patterns q c i ?s)"
    by (rule capitalize_subtitle_view)
  show ?case
  proof (cases "capitalize_subtitle env patterns p c i ?s")
    case None
    with so show ?thesis by (simp add: same_outcome_def acc Let_def shift_changes_def)
  next
    case (Some x)
    show ?thesis
    proof (cases x)
      case (Inl e)
      with so Some show ?thesis by (simp add: same_outcome_def acc Let_def shift_changes_def)
    next
      case (Inr cp)
      obtain c1 p1 where cp: "cp = (c1, p1)" by (cases cp)
      from so Some Inr cp obtain q1 where
        q1: "capitalize_subtitle env patterns q c i ?s = Some (Inr (c1, q1))" and
        t: "ptext p1 = ptext q1"
        by (auto simp: same_outcome_def)
      show ?thesis
      proof (cases "ptext p1 = ?s")
        case True
        with t Some Inr cp q1 Cons.IH [of "(ni, nt)" p1 c1 q1] show ?thesis
          by (simp add: acc Let_def)
      next
        case False
        have 1: "shift_changes ([i], [ptext p1]) (capitalize_run env pr doc patterns run p1 c1 ([], [])) =
                 shift_changes ([], []) (capitalize_run env pr doc patterns run p1 c1 ([i], [ptext p1]))"
          by (rule Cons.IH)
        have 2: "shift_changes (ni @ [i], nt @ [ptext p1]) (capitalize_run env pr doc patterns run p1 c1 ([], [])) =
                 shift_changes ([], []) (capitalize_run env pr doc patterns run q1 c1 (ni @ [i], nt @ [ptext p1]))"
          by (rule Cons.IH)
        have 3: "shift_changes (ni, nt) (capitalize_run env pr doc patterns run p1 c1 ([i], [ptext p1])) =
                 shift_changes (ni @ [i], nt @ [ptext p1]) (capitalize_run env pr doc patterns run p1 c1 ([], []))"
          using 1
          by (cases "capitalize_run env pr doc patterns run p1 c1 ([], [])";
              cases "capitalize_run env pr doc patterns run p1 c1 ([i], [ptext p1])")
             (auto simp: shift_changes_def split: sum.splits)
        from False t Some Inr cp q1 2 3 show ?thesis
          by (simp add: acc Let_def)
      qed
    qed
  qed
qed

lemma capitalize_ranges_view:
  "capitalize_ranges env pr doc patterns runs p acc = capitalize_ranges env pr doc patterns runs q acc"
proof (induction runs arbitrary: p q acc)
  case Nil
  show ?case by simp
next
  case (Cons run runs)
  have "shift_changes ([], []) (capitalize_run env pr doc patterns run p False acc) =
        shift_changes ([], []) (capitalize_run env pr doc patterns run q False acc)"
    using capitalize_run_view [of acc env pr doc patterns run p False p]
      capitalize_run_view [of acc env pr doc patterns run p False q]
    by simp
  then show ?case
    using Cons.IH
    by (cases "capitalize_run env pr doc patterns run p False acc";
        cases "capitalize_run env pr doc patterns run q False acc")
       (auto simp: shift_changes_def split: sum.splits)
qed

lemma capitalize_ranges_reset:
  "capitalize_ranges env pr doc patterns (run # runs) parser (ni, nt) =
     (case run_changes env pr doc patterns run of
        None \<Rightarrow> None
      | Some (Inl e) \<Rightarrow> Some (Inl e)
      | Some (Inr (di, dt)) \<Rightarrow>
          capitalize_ranges env pr doc patterns runs parser (ni @ di, nt @ dt))"
proof -
  have "shift_changes (ni, nt) (capitalize_run env pr doc patterns run new_parser False ([], [])) =
        shift_changes ([], []) (capitalize_run env pr doc patterns run parser False (ni, nt))"
    by (rule capitalize_run_view)
  then show ?thesis
    using capitalize_ranges_view [of env pr doc patterns runs _ _ parser]
    by (cases "capitalize_run env pr doc patterns run new_parser False ([], [])";
        cases "capitalize_run env pr doc patterns run parser False (ni, nt)")
       (auto simp: run_changes_def shift_changes_def split: sum.splits)
qed

lemma add_to_ranges_consecutive:
  "\<forall>r \<in> set rs. consecutive r \<Longrightarrow> \<forall>r \<in> set (add_to_ranges i rs). consecutive r"
  by (induction i rs rule: add_to_ranges.induct) auto

lemma add_to_ranges_separated:
  "separated rs \<Longrightarrow> \<forall>r \<in> set rs. r \<noteq> [] \<Longrightarrow> separated (add_to_ranges i rs)"
proof (induction i rs rule: add_to_ranges.induct)
  case (1 i)
  show ?case by simp
next
  case (2 i rs)
  then show ?case by simp
next
  case (3 i j r rs)
  show ?case
  proof (cases "j = Suc i")
    case True
    with 3 show ?thesis by (cases rs) simp_all
  next
    case False
    with 3 show ?thesis by simp
  qed
qed

lemma consecutive_not_Nil: "consecutive r \<Longrightarrow> r \<noteq> []"
  by (cases r) simp_all

lemma get_ranges_runs:
  "(\<forall>r \<in> set (get_ranges indexes). consecutive r) \<and> separated (get_ranges indexes)"
proof -
  have "(\<forall>r \<in> set (foldr add_to_ranges xs []). consecutive r) \<and> separated (foldr add_to_ranges xs [])" for xs
  proof (induction xs)
    case Nil
    show ?case by simp
  next
    case (Cons x xs)
    then have ne: "\<forall>r \<in> set (foldr add_to_ranges xs []). r \<noteq> []"
      using consecutive_not_Nil by blast
    from Cons have c: "\<forall>r \<in> set (foldr add_to_ranges xs []). consecutive r"
      and s: "separated (foldr add_to_ranges xs [])" by simp_all
    from add_to_ranges_consecutive [OF c, of x] add_to_ranges_separated [OF s ne, of x]
    show ?case by simp
  qed
  then show ?thesis by (simp add: get_ranges_def)
qed

lemma capitalize_subtitle_first:
  "capitalize_subtitle env patterns parser False i s =
     capitalize_patterns env (filter enabled patterns)
       (if i = 0 then snd (capitalize_position (set_text s parser) 0) else set_text s parser) False"
  by (simp add: capitalize_subtitle_def Let_def)

section \<open>Lemmas: the seven substitutions, each on its own\<close>

text \<open>In the concrete environment each source does what its place in the pipeline is for.\<close>

lemma cleanup_steps_examples:
  "pipeline py_env [(src_trim_space, [])] ''  a b  '' = Inr ''a b''"
  "pipeline py_env [(src_spaces, '' '')] ''a   b  c'' = Inr ''a b c''"
  "pipeline py_env [(src_nonword, [])] ''... !'' = Inr []"
  "pipeline py_env [(src_nonword, [])] ''... a'' = Inr ''... a''"
  "pipeline py_env [(src_trim_newline, [])] ([newline] @ ''a'' @ [newline]) = Inr ''a''"
  "pipeline py_env [(src_dash, ''- '' @ group1)] ''-a'' = Inr ''- a''"
  "pipeline py_env [(src_dash_merge, group1)] (''- a'' @ [newline] @ ''b'') = Inr (''a'' @ [newline] @ ''b'')"
  "pipeline py_env [(src_dash_merge, group1)] (''- a'' @ [newline] @ ''- b'') = Inr (''- a'' @ [newline] @ ''- b'')"
  "pipeline py_env [(src_dash_lone, group1)] ''- a'' = Inr ''a''"
  "pipeline py_env [(src_dash_lone, group1)] (''- a'' @ [newline] @ ''- b'') = Inr (''- a'' @ [newline] @ ''- b'')"
  by code_simp+

section \<open>Lemmas: capitalize on one subtitle with a Start pattern\<close>











section \<open>The claims\<close>

subsection \<open>C1: the first subtitle of a run\<close>

text \<open>
  C1, as stated, fails: with the indexes \<open>[1]\<close> the only run is \<open>[1]\<close>, it does not start
  at index 0, and its first subtitle, \<open>world\<close>, whose first character is eligible, is
  left as it is; the operation ends without a change.
\<close>

theorem run_start_counterexample:
  "get_ranges (indexes_or_all (Some [1]) (new_project [''hello'', ''world''])) = [[1]]
   \<and> text_of (new_project [''hello'', ''world'']) MAIN 1 = ''world''
   \<and> capitalize py_env (Some [1]) MAIN [] (new_project [''hello'', ''world'']) =
       Some (Inr NoChange, new_project [''hello'', ''world''])"
  by code_simp

text \<open>
  C1, amended. In \<open>capitalize\<close> the index set is partitioned into maximal runs of
  consecutive integers, and the carry-over is reset at every run boundary: what a run
  contributes is what it contributes when processed on its own, from a new parser and
  with the carry-over off, whatever came before it. The first subtitle of a run is
  capitalized at position 0 before the patterns only if it is the subtitle at collection
  index 0 (line 178); the first subtitle of a run that starts elsewhere is left to the
  patterns. With no pattern enabled, \<open>capitalize\<close> therefore changes at most the subtitle
  at index 0.
\<close>

theorem run_start_only_at_collection_start:
  "(\<forall>r \<in> set (get_ranges idx). consecutive r)
   \<and> separated (get_ranges idx)
   \<and> concat (get_ranges idx) = sort (remdups idx)
   \<and> capitalize_ranges env pr doc patterns (run # runs) parser (ni, nt) =
       (case run_changes env pr doc patterns run of
          None \<Rightarrow> None
        | Some (Inl e) \<Rightarrow> Some (Inl e)
        | Some (Inr (di, dt)) \<Rightarrow>
            capitalize_ranges env pr doc patterns runs parser (ni @ di, nt @ dt))
   \<and> capitalize_subtitle env patterns parser False i s =
       capitalize_patterns env (filter enabled patterns)
         (if i = 0 then snd (capitalize_position (set_text s parser) 0) else set_text s parser)
         False
   \<and> ((\<forall>x \<in> set patterns. \<not> enabled x) \<and> require indexes pr \<and> doc \<noteq> OtherDocument \<longrightarrow>
       capitalize env indexes doc patterns pr =
         Some (if 0 \<in> set (indexes_or_all indexes pr) \<and>
                  ptext (snd (capitalize_position (set_text (text_of pr doc 0) new_parser) 0)) \<noteq>
                    text_of pr doc 0
               then (Inr Changed,
                     set_action_description ''Capitalizing texts''
                       (replace_texts [0] doc
                          [ptext (snd (capitalize_position
                                         (set_text (text_of pr doc 0) new_parser) 0))]
                          pr))
               else (Inr NoChange, pr)))"
proof -
  have none: "capitalize env indexes doc patterns pr =
         Some (if 0 \<in> set (indexes_or_all indexes pr) \<and>
                  ptext (snd (capitalize_position (set_text (text_of pr doc 0) new_parser) 0)) \<noteq>
                    text_of pr doc 0
               then (Inr Changed,
                     set_action_description ''Capitalizing texts''
                       (replace_texts [0] doc
                          [ptext (snd (capitalize_position
                                         (set_text (text_of pr doc 0) new_parser) 0))]
                          pr))
               else (Inr NoChange, pr))"
    if a: "\<forall>x \<in> set patterns. \<not> enabled x" "require indexes pr" "doc \<noteq> OtherDocument"
  proof -
    let ?idx = "indexes_or_all indexes pr"
    have f: "filter (\<lambda>i. i = 0 \<and> capitalized_first pr doc \<noteq> text_of pr doc 0) (sort (remdups ?idx)) =
          (if 0 \<in> set ?idx \<and> capitalized_first pr doc \<noteq> text_of pr doc 0 then [0] else [])"
      using filter_zero_distinct [of "sort (remdups ?idx)" "capitalized_first pr doc \<noteq> text_of pr doc 0"]
      by simp
    show ?thesis
      using a(2) get_parser_valid [OF a(3)]
      by (simp add: concat_get_ranges capitalize_def
            capitalize_ranges_no_patterns [OF a(1), of env pr doc _ new_parser "[]" "[]", simplified] f
            del: set_remdups)
         (simp add: capitalized_first_def)
  qed
  have runs1: "\<forall>r \<in> set (get_ranges idx). consecutive r"
    and runs2: "separated (get_ranges idx)"
    using get_ranges_runs [of idx] by simp_all
  have none_imp: "(\<forall>x \<in> set patterns. \<not> enabled x) \<and> require indexes pr \<and> doc \<noteq> OtherDocument \<longrightarrow>
       capitalize env indexes doc patterns pr =
         Some (if 0 \<in> set (indexes_or_all indexes pr) \<and>
                  ptext (snd (capitalize_position (set_text (text_of pr doc 0) new_parser) 0)) \<noteq>
                    text_of pr doc 0
               then (Inr Changed,
                     set_action_description ''Capitalizing texts''
                       (replace_texts [0] doc
                          [ptext (snd (capitalize_position
                                         (set_text (text_of pr doc 0) new_parser) 0))]
                          pr))
               else (Inr NoChange, pr))"
    using none by blast
  from runs1 runs2 concat_get_ranges [of idx]
    capitalize_ranges_reset [of env pr doc patterns run runs parser ni nt]
    capitalize_subtitle_first [of env patterns parser i s] none_imp
  show ?thesis by (intro conjI)
qed

theorem run_start_only_at_collection_start_witness:
  "require (Some [0, 2, 3]) (new_project [''hello'', ''you'', ''world'', ''again''])
   \<and> MAIN \<noteq> OtherDocument
   \<and> get_ranges (indexes_or_all (Some [0, 2, 3])
         (new_project [''hello'', ''you'', ''world'', ''again''])) = [[0], [2, 3]]
   \<and> capitalize py_env (Some [0, 2, 3]) MAIN []
         (new_project [''hello'', ''you'', ''world'', ''again'']) =
       Some (Inr Changed,
             set_action_description ''Capitalizing texts''
               (replace_texts [0] MAIN [''Hello'']
                  (new_project [''hello'', ''you'', ''world'', ''again''])))
   \<and> capitalize py_env (Some [0, 2]) MAIN [simple_pattern ''stop'' [] True False ''After'']
         (new_project [''Full stop'', ''you'', ''hello'']) =
       Some (Inr NoChange, new_project [''Full stop'', ''you'', ''hello''])"
proof -
  have h1: "\<forall>x \<in> set ([] :: pattern list). \<not> enabled x" by simp
  have h2: "require (Some [0, 2, 3]) (new_project [''hello'', ''you'', ''world'', ''again''])"
    by (simp add: require_def new_project_def)
  have h3: "MAIN \<noteq> OtherDocument" by simp
  have e1: "get_ranges (indexes_or_all (Some [0, 2, 3])
         (new_project [''hello'', ''you'', ''world'', ''again''])) = [[0], [2, 3]]"
    by code_simp
  have e2: "0 \<in> set (indexes_or_all (Some [0, 2, 3])
              (new_project [''hello'', ''you'', ''world'', ''again'']))"
    by (simp add: indexes_or_all_def)
  have e3: "ptext (snd (capitalize_position (set_text ''hello'' new_parser) 0)) = ''Hello''"
    by code_simp
  have e4: "text_of (new_project [''hello'', ''you'', ''world'', ''again'']) MAIN 0 = ''hello''"
    by code_simp
  have e5: "capitalize py_env (Some [0, 2]) MAIN [simple_pattern ''stop'' [] True False ''After'']
         (new_project [''Full stop'', ''you'', ''hello'']) =
       Some (Inr NoChange, new_project [''Full stop'', ''you'', ''hello''])"
    by code_simp
  note inst = run_start_only_at_collection_start [where env = py_env and indexes = "Some [0, 2, 3]"
      and doc = MAIN and patterns = "[]"
      and pr = "new_project [''hello'', ''you'', ''world'', ''again'']"]
  from inst h1 h2 h3 have "capitalize py_env (Some [0, 2, 3]) MAIN []
         (new_project [''hello'', ''you'', ''world'', ''again'']) =
       Some (if 0 \<in> set (indexes_or_all (Some [0, 2, 3])
                         (new_project [''hello'', ''you'', ''world'', ''again''])) \<and>
                ptext (snd (capitalize_position
                  (set_text (text_of (new_project [''hello'', ''you'', ''world'', ''again'']) MAIN 0)
                     new_parser) 0)) \<noteq>
                  text_of (new_project [''hello'', ''you'', ''world'', ''again'']) MAIN 0
             then (Inr Changed,
                   set_action_description ''Capitalizing texts''
                     (replace_texts [0] MAIN
                        [ptext (snd (capitalize_position
                           (set_text (text_of (new_project [''hello'', ''you'', ''world'', ''again''])
                              MAIN 0) new_parser) 0))]
                        (new_project [''hello'', ''you'', ''world'', ''again''])))
             else (Inr NoChange, new_project [''hello'', ''you'', ''world'', ''again'']))"
    by blast
  then have "capitalize py_env (Some [0, 2, 3]) MAIN []
         (new_project [''hello'', ''you'', ''world'', ''again'']) =
       Some (Inr Changed,
             set_action_description ''Capitalizing texts''
               (replace_texts [0] MAIN [''Hello'']
                  (new_project [''hello'', ''you'', ''world'', ''again''])))"
    by (simp only: e2 e4) (simp add: e3)
  with h2 h3 e1 e5 show ?thesis by (intro conjI)
qed

subsection \<open>C2: the repeat flag\<close>

text \<open>
  C2: the code at a table whose first pattern is disabled. The table is a disabled pattern
  without the repeat flag followed by the enabled pattern \<open>aa\<close> with the replacement \<open>a\<close>
  and the repeat flag; the text is \<open>aaaa\<close>. The enabled pattern has index 0 among the
  enabled patterns, so the flag consulted is that of the disabled pattern (lines 213 and
  222): \<open>replace_all\<close> runs once and leaves \<open>aa\<close>. The same pattern alone in the table is
  repeated until nothing is replaced and leaves \<open>a\<close>.
\<close>

theorem repeat_flag_misaligned:
  "correct_common_errors py_env None MAIN
     [simple_pattern ''x'' ''y'' False False [], simple_pattern ''aa'' ''a'' True True []]
     (new_project [''aaaa'']) =
     Some (Inr Changed, set_action_description ''Correcting common errors''
       (replace_texts [0] MAIN [''aa''] (new_project [''aaaa''])))
   \<and> correct_common_errors py_env None MAIN
     [simple_pattern ''aa'' ''a'' True True []]
     (new_project [''aaaa'']) =
     Some (Inr Changed, set_action_description ''Correcting common errors''
       (replace_texts [0] MAIN [''a''] (new_project [''aaaa''])))"
  by code_simp

subsection \<open>C3: the improvement check of break_lines\<close>

text \<open>
  C3: the code on a project without a file, so that there is no tag pattern. The text
  \<open>aaaa bbbb\<close> has length 9 and exceeds \<open>max_skip_length = 5\<close>; the line breaker returns two
  lines of length 4. Line 139 does not assign \<open>tagless_text\<close> when there is no tag
  pattern, the length is measured on the text before the break again, no improvement is
  seen and the subtitle is skipped. With a file of any format (and hence a tag pattern)
  the same candidate is accepted.
\<close>

theorem skip_without_tag_regex:
  "break_lines (py_env\<lparr>liner_break_lines := (\<lambda>liner. Inr (''aaaa'' @ [newline] @ ''bbbb''))\<rparr>)
     None MAIN [] (\<lambda>s. int (length s)) 5 2 0 True 5 2 (new_project [''aaaa bbbb'']) =
     (Inr NoChange, new_project [''aaaa bbbb''])
   \<and> break_lines (py_env\<lparr>liner_break_lines := (\<lambda>liner. Inr (''aaaa'' @ [newline] @ ''bbbb''))\<rparr>)
     None MAIN [] (\<lambda>s. int (length s)) 5 2 0 True 5 2
     ((new_project [''aaaa bbbb''])\<lparr>main_file := Some 0\<rparr>) =
     (Inr Changed, set_action_description ''Breaking lines''
        (replace_texts [0] MAIN [''aaaa'' @ [newline] @ ''bbbb'']
           ((new_project [''aaaa bbbb''])\<lparr>main_file := Some 0\<rparr>)))"
  by code_simp

subsection \<open>C4: errors and the collection\<close>




subsection \<open>C5: a second run of correct_common_errors\<close>

text \<open>
  C5, as stated, fails: the table with the one pattern \<open>a\<close>, replacement \<open>aa\<close>, repeat off,
  turns the text \<open>a\<close> into \<open>aa\<close> in a first run and \<open>aa\<close> into \<open>aaaa\<close> in a second run
  on the same subtitle and document, which therefore does not end with NoChange.
\<close>

theorem idempotence_counterexample:
  "repeat_field (simple_pattern ''a'' ''aa'' True False []) = False
   \<and> correct_common_errors py_env None MAIN [simple_pattern ''a'' ''aa'' True False []]
       (new_project [''a'']) =
     Some (Inr Changed, set_action_description ''Correcting common errors''
       (replace_texts [0] MAIN [''aa''] (new_project [''a''])))
   \<and> correct_common_errors py_env None MAIN [simple_pattern ''a'' ''aa'' True False []]
       (set_action_description ''Correcting common errors''
         (replace_texts [0] MAIN [''aa''] (new_project [''a'']))) =
     Some (Inr Changed, set_action_description ''Correcting common errors''
       (replace_texts [0] MAIN [''aaaa'']
         (set_action_description ''Correcting common errors''
           (replace_texts [0] MAIN [''aa''] (new_project [''a''])))))"
  by code_simp

text \<open>
  C5, amended. For every pattern table in which every pattern has repeat off, a second
  run of \<open>correct_common_errors\<close> on the same indexes and document, after a first run
  that returned, ends with NoChange (no text changed, nothing committed) exactly when one
  more pass of the enabled patterns leaves the text of every selected subtitle, as the
  first run left it, as it is.
\<close>

theorem second_run_no_change_iff:
  assumes "\<forall>p \<in> set patterns. \<not> repeat_field p"
    and "correct_common_errors env indexes doc patterns pr = Some (Inr out, pr1)"
  shows "correct_common_errors env indexes doc patterns pr1 = Some (Inr NoChange, pr1) \<longleftrightarrow>
     (\<forall>i \<in> set (indexes_or_all indexes pr1).
        pass_text env (get_subtitutions patterns) (text_of pr1 doc i) = Inr (text_of pr1 doc i))"
proof -
  from correct_common_errors_returns [OF assms(2)] have
    r: "require indexes pr" and d: "doc \<noteq> OtherDocument" and
    len: "length (subtitles pr1) = length (subtitles pr)"
    by simp_all
  from r len have "require indexes pr1" by (simp add: require_def)
  from correct_common_errors_no_repeat [OF assms(1) this d] show ?thesis .
qed

theorem second_run_no_change_iff_witness:
  "correct_common_errors py_env None MAIN [simple_pattern ''teh'' ''the'' True False []]
        (new_project [''I saw teh cat'']) =
      Some (Inr Changed, set_action_description ''Correcting common errors''
        (replace_texts [0] MAIN [''I saw the cat''] (new_project [''I saw teh cat''])))
   \<and> pass_text py_env (get_subtitutions [simple_pattern ''teh'' ''the'' True False []])
        ''I saw the cat'' = Inr ''I saw the cat''
   \<and> correct_common_errors py_env None MAIN [simple_pattern ''teh'' ''the'' True False []]
        (set_action_description ''Correcting common errors''
          (replace_texts [0] MAIN [''I saw the cat''] (new_project [''I saw teh cat'']))) =
      Some (Inr NoChange, set_action_description ''Correcting common errors''
          (replace_texts [0] MAIN [''I saw the cat''] (new_project [''I saw teh cat''])))"
proof -
  have h1: "\<forall>p \<in> set [simple_pattern ''teh'' ''the'' True False []]. \<not> repeat_field p"
    by (simp add: simple_pattern_def)
  have h2: "correct_common_errors py_env None MAIN [simple_pattern ''teh'' ''the'' True False []]
        (new_project [''I saw teh cat'']) =
      Some (Inr Changed, set_action_description ''Correcting common errors''
        (replace_texts [0] MAIN [''I saw the cat''] (new_project [''I saw teh cat''])))"
    by code_simp
  have e1: "indexes_or_all None (set_action_description ''Correcting common errors''
          (replace_texts [0] MAIN [''I saw the cat''] (new_project [''I saw teh cat'']))) = [0]"
    by code_simp
  have e2: "text_of (set_action_description ''Correcting common errors''
          (replace_texts [0] MAIN [''I saw the cat''] (new_project [''I saw teh cat''])))
          MAIN 0 = ''I saw the cat''"
    by code_simp
  have e3: "pass_text py_env (get_subtitutions [simple_pattern ''teh'' ''the'' True False []])
        ''I saw the cat'' = Inr ''I saw the cat''"
    by code_simp
  have fixed: "\<forall>i \<in> set (indexes_or_all None (set_action_description ''Correcting common errors''
          (replace_texts [0] MAIN [''I saw the cat''] (new_project [''I saw teh cat''])))).
        pass_text py_env (get_subtitutions [simple_pattern ''teh'' ''the'' True False []])
          (text_of (set_action_description ''Correcting common errors''
             (replace_texts [0] MAIN [''I saw the cat''] (new_project [''I saw teh cat''])))
             MAIN i) =
        Inr (text_of (set_action_description ''Correcting common errors''
             (replace_texts [0] MAIN [''I saw the cat''] (new_project [''I saw teh cat''])))
             MAIN i)"
    by (simp only: e1) (simp add: e2 e3)
  from second_run_no_change_iff [OF h1 h2] fixed
  have c: "correct_common_errors py_env None MAIN [simple_pattern ''teh'' ''the'' True False []]
        (set_action_description ''Correcting common errors''
          (replace_texts [0] MAIN [''I saw the cat''] (new_project [''I saw teh cat'']))) =
      Some (Inr NoChange, set_action_description ''Correcting common errors''
          (replace_texts [0] MAIN [''I saw the cat''] (new_project [''I saw teh cat''])))"
    by blast
  from h2 e3 c show ?thesis by (intro conjI)
qed

subsection \<open>C6: the carry-over\<close>

text \<open>
  C6: the code on a run of two subtitles whose second text starts with a dash. The After
  pattern \<open>stop\<close> matches at the very end of \<open>Full stop\<close>, nothing can be capitalized
  after it and the carry-over is set. On the second subtitle \<open>_capitalize_position\<close>
  finds its pattern, which starts at the position given (\<open>match.start()\<close> is 0), and
  capitalizes the character there, the dash: it reports success and the eligible
  character \<open>h\<close> stays in lower case, so that the operation ends without a change. When
  the second text starts with its eligible character it is capitalized.
\<close>

theorem carry_over_leading_dash:
  "capitalize py_env (Some [0, 1]) MAIN [simple_pattern ''stop'' [] True False ''After'']
     (new_project [''Full stop'', ''- hello'']) =
     Some (Inr NoChange, new_project [''Full stop'', ''- hello''])
   \<and> capitalize_text (set_text ''Full stop'' new_parser\<lparr>regex := Some (literal ''stop'')\<rparr>)
       (simple_pattern ''stop'' [] True False ''After'') False =
     Some (True, set_text ''Full stop'' new_parser\<lparr>regex := Some (literal ''stop''), pos := 9\<rparr>)
   \<and> capitalize_position (set_text ''- hello'' new_parser) 0 =
       (True, set_text ''- hello'' new_parser)
   \<and> capitalize py_env (Some [0, 1]) MAIN [simple_pattern ''stop'' [] True False ''After'']
     (new_project [''Full stop'', ''hello'']) =
     Some (Inr Changed, set_action_description ''Capitalizing texts''
       (replace_texts [1] MAIN [''Hello''] (new_project [''Full stop'', ''hello''])))"
  by code_simp

text \<open>
  C7. \<open>_remove_leftover_spaces\<close> returns, for each of its texts, the result of the seven
  substitutions in this order: trim leading and trailing whitespace, collapse runs of two
  or more spaces, blank a text of non-word characters only, trim a leading and a trailing
  newline, put a space after a leading dash, merge a dash-prefixed first line into a
  continuation without dash, strip a lone leading dash. In \<open>remove_hearing_impaired\<close>
  the texts that go through it, and that are committed, are those of the subtitles that
  the pass over the patterns has changed, and no others.
\<close>

theorem cleanup_pipeline_order:
  "(remove_leftover_spaces env texts parser = Inr (texts1, parser1) \<longrightarrow>
      map Inr texts1 =
        map (pipeline env
               [(src_trim_space, []), (src_spaces, '' ''), (src_nonword, []),
                (src_trim_newline, []), (src_dash, ''- '' @ group1),
                (src_dash_merge, group1), (src_dash_lone, group1)]) texts)
   \<and> (remove_hearing_impaired env indexes doc patterns pr = (Inr Changed, pr1) \<longrightarrow>
      (\<exists>new_texts rest.
         operations (last (undoables pr1)) =
           ReplaceTexts (filter (changed_by_pass env (get_subtitutions patterns) pr doc)
                          (indexes_or_all indexes pr)) doc new_texts # rest
       \<and> map Inr new_texts =
           map (\<lambda>i. case pass_text env (get_subtitutions patterns) (text_of pr doc i) of
                      Inl e \<Rightarrow> Inl e
                    | Inr s \<Rightarrow> pipeline env cleanup_steps s)
             (filter (changed_by_pass env (get_subtitutions patterns) pr doc)
                (indexes_or_all indexes pr))))"
proof (intro conjI impI)
  assume "remove_leftover_spaces env texts parser = Inr (texts1, parser1)"
  from remove_leftover_spaces_result [OF this]
  show "map Inr texts1 =
        map (pipeline env
               [(src_trim_space, []), (src_spaces, '' ''), (src_nonword, []),
                (src_trim_newline, []), (src_dash, ''- '' @ group1),
                (src_dash_merge, group1), (src_dash_lone, group1)]) texts"
    by (simp only: cleanup_steps_def)
next
  assume "remove_hearing_impaired env indexes doc patterns pr = (Inr Changed, pr1)"
  from hearing_committed [OF this]
  show "\<exists>new_texts rest.
         operations (last (undoables pr1)) =
           ReplaceTexts (filter (changed_by_pass env (get_subtitutions patterns) pr doc)
                          (indexes_or_all indexes pr)) doc new_texts # rest
       \<and> map Inr new_texts =
           map (\<lambda>i. case pass_text env (get_subtitutions patterns) (text_of pr doc i) of
                      Inl e \<Rightarrow> Inl e
                    | Inr s \<Rightarrow> pipeline env cleanup_steps s)
             (filter (changed_by_pass env (get_subtitutions patterns) pr doc)
                (indexes_or_all indexes pr))" .
qed

theorem cleanup_pipeline_order_witness:
  "remove_leftover_spaces py_env [''  -hello   you  ''] new_parser =
     Inr ([''hello you''],
          \<lparr>ptext = ''hello you'', regex = Some re_dash_lone, replacement = group1, pos = 0\<rparr>)
   \<and> map Inr [''hello you''] =
        map (pipeline py_env
               [(src_trim_space, []), (src_spaces, '' ''), (src_nonword, []),
                (src_trim_newline, []), (src_dash, ''- '' @ group1),
                (src_dash_merge, group1), (src_dash_lone, group1)]) [''  -hello   you  '']
   \<and> remove_hearing_impaired py_env None MAIN [simple_pattern src_brackets [] True False []]
        (new_project [''-[SIGHS]hello   you '', ''  keep  '']) =
      (Inr Changed,
       set_action_description ''Removing hearing impaired texts''
         (replace_texts [0] MAIN [''hello you'']
            (new_project [''-[SIGHS]hello   you '', ''  keep  ''])))
   \<and> (\<exists>new_texts rest.
         operations (last (undoables
           (set_action_description ''Removing hearing impaired texts''
              (replace_texts [0] MAIN [''hello you'']
                 (new_project [''-[SIGHS]hello   you '', ''  keep  '']))))) =
           ReplaceTexts
             (filter (changed_by_pass py_env
                        (get_subtitutions [simple_pattern src_brackets [] True False []])
                        (new_project [''-[SIGHS]hello   you '', ''  keep  '']) MAIN)
                (indexes_or_all None (new_project [''-[SIGHS]hello   you '', ''  keep  ''])))
             MAIN new_texts # rest)"
proof -
  have h1: "remove_leftover_spaces py_env [''  -hello   you  ''] new_parser =
     Inr ([''hello you''],
          \<lparr>ptext = ''hello you'', regex = Some re_dash_lone, replacement = group1, pos = 0\<rparr>)"
    by code_simp
  have h2: "remove_hearing_impaired py_env None MAIN [simple_pattern src_brackets [] True False []]
        (new_project [''-[SIGHS]hello   you '', ''  keep  '']) =
      (Inr Changed,
       set_action_description ''Removing hearing impaired texts''
         (replace_texts [0] MAIN [''hello you'']
            (new_project [''-[SIGHS]hello   you '', ''  keep  ''])))"
    by code_simp
  note inst = cleanup_pipeline_order [of py_env "[''  -hello   you  '']" new_parser "[''hello you'']"
      "\<lparr>ptext = ''hello you'', regex = Some re_dash_lone, replacement = group1, pos = 0\<rparr>"
      None MAIN "[simple_pattern src_brackets [] True False []]"
      "new_project [''-[SIGHS]hello   you '', ''  keep  '']"
      "set_action_description ''Removing hearing impaired texts''
         (replace_texts [0] MAIN [''hello you'']
            (new_project [''-[SIGHS]hello   you '', ''  keep  '']))"]
  from inst h1 have c1: "map Inr [''hello you''] =
        map (pipeline py_env
               [(src_trim_space, []), (src_spaces, '' ''), (src_nonword, []),
                (src_trim_newline, []), (src_dash, ''- '' @ group1),
                (src_dash_merge, group1), (src_dash_lone, group1)]) [''  -hello   you  '']"
    by blast
  from inst h2 have c2: "\<exists>new_texts rest.
         operations (last (undoables
           (set_action_description ''Removing hearing impaired texts''
              (replace_texts [0] MAIN [''hello you'']
                 (new_project [''-[SIGHS]hello   you '', ''  keep  '']))))) =
           ReplaceTexts
             (filter (changed_by_pass py_env
                        (get_subtitutions [simple_pattern src_brackets [] True False []])
                        (new_project [''-[SIGHS]hello   you '', ''  keep  '']) MAIN)
                (indexes_or_all None (new_project [''-[SIGHS]hello   you '', ''  keep  ''])))
             MAIN new_texts # rest"
    by blast
  from h1 h2 c1 c2 show ?thesis by (intro conjI)
qed

text \<open>
  C8. \<open>remove_hearing_impaired\<close> with the one enabled pattern \<^verbatim>\<open>\[.*?\]\<close>, its replacement
  empty, on a collection whose one subtitle has the text \<^verbatim>\<open>[PHONE RINGING]\<close>: the cleaned
  text is empty, the subtitle is removed from the collection, and the replacement of the
  text and the removal are one action of the history, described as "Removing hearing
  impaired texts".
\<close>

theorem cascading_removal:
  "remove_hearing_impaired py_env None MAIN [simple_pattern src_brackets [] True False []]
     (new_project [''[PHONE RINGING]'']) =
   (Inr Changed,
    \<lparr>subtitles = [], main_file = None, tran_file = None,
     undoables = [\<lparr>description = ''Removing hearing impaired texts'',
                   operations = [ReplaceTexts [0] MAIN [[]], RemoveSubtitles [0]]\<rparr>],
     redoables = []\<rparr>)"
  by code_simp

subsection \<open>C9: the ellipsis guard\<close>




text \<open>
  C10. In \<open>remove_hearing_impaired\<close> a subtitle counts as changed by its text after the
  pass over the patterns, before the cleanup: the committed replacement holds exactly the
  selected subtitles whose text the pass has changed, whatever the cleanup makes of it
  afterwards (also the original text again), with one text for each; and when the pass
  changes no selected text the operation ends without a change, so that no text has gone
  through the cleanup.
\<close>

theorem changed_decided_before_cleanup:
  "(remove_hearing_impaired env indexes doc patterns pr = (Inr Changed, pr1) \<longrightarrow>
      (\<exists>new_indexes new_texts rest.
         operations (last (undoables pr1)) = ReplaceTexts new_indexes doc new_texts # rest
       \<and> length new_texts = length new_indexes
       \<and> (\<forall>i. i \<in> set new_indexes \<longleftrightarrow>
                i \<in> set (indexes_or_all indexes pr) \<and>
                pass_text env (get_subtitutions patterns) (text_of pr doc i) \<noteq>
                  Inr (text_of pr doc i))))
   \<and> (require indexes pr \<and> doc \<noteq> OtherDocument \<and>
        (\<forall>i \<in> set (indexes_or_all indexes pr).
           pass_text env (get_subtitutions patterns) (text_of pr doc i) =
             Inr (text_of pr doc i)) \<longrightarrow>
      remove_hearing_impaired env indexes doc patterns pr = (Inr NoChange, pr))"
proof (intro conjI impI)
  assume "remove_hearing_impaired env indexes doc patterns pr = (Inr Changed, pr1)"
  from hearing_committed [OF this] obtain new_texts rest where
    ops: "operations (last (undoables pr1)) =
       ReplaceTexts (filter (changed_by_pass env (get_subtitutions patterns) pr doc)
                      (indexes_or_all indexes pr)) doc new_texts # rest" and
    texts: "map Inr new_texts =
       map (\<lambda>i. case pass_text env (get_subtitutions patterns) (text_of pr doc i) of
                  Inl e \<Rightarrow> Inl e
                | Inr s \<Rightarrow> pipeline env cleanup_steps s)
         (filter (changed_by_pass env (get_subtitutions patterns) pr doc)
            (indexes_or_all indexes pr))"
    by blast
  from texts have "length (map (Inr :: string \<Rightarrow> error + string) new_texts) =
      length (filter (changed_by_pass env (get_subtitutions patterns) pr doc)
                (indexes_or_all indexes pr))"
    by simp
  then have len: "length new_texts =
      length (filter (changed_by_pass env (get_subtitutions patterns) pr doc)
                (indexes_or_all indexes pr))"
    by simp
  show "\<exists>new_indexes new_texts rest.
         operations (last (undoables pr1)) = ReplaceTexts new_indexes doc new_texts # rest
       \<and> length new_texts = length new_indexes
       \<and> (\<forall>i. i \<in> set new_indexes \<longleftrightarrow>
                i \<in> set (indexes_or_all indexes pr) \<and>
                pass_text env (get_subtitutions patterns) (text_of pr doc i) \<noteq>
                  Inr (text_of pr doc i))"
    using ops len by (auto simp: changed_by_pass_def)
next
  assume "require indexes pr \<and> doc \<noteq> OtherDocument \<and>
        (\<forall>i \<in> set (indexes_or_all indexes pr).
           pass_text env (get_subtitutions patterns) (text_of pr doc i) =
             Inr (text_of pr doc i))"
  then show "remove_hearing_impaired env indexes doc patterns pr = (Inr NoChange, pr)"
    using hearing_all_unchanged by blast
qed

theorem changed_decided_before_cleanup_witness:
  "remove_hearing_impaired py_env None MAIN [simple_pattern ''hello'' '' hello'' True False []]
      (new_project [''hello'', ''  world'']) =
     (Inr Changed,
      set_action_description ''Removing hearing impaired texts''
        (replace_texts [0] MAIN [''hello''] (new_project [''hello'', ''  world''])))
   \<and> pass_text py_env (get_subtitutions [simple_pattern ''hello'' '' hello'' True False []])
        ''hello'' = Inr '' hello''
   \<and> (\<exists>new_indexes new_texts rest.
         operations (last (undoables
           (set_action_description ''Removing hearing impaired texts''
              (replace_texts [0] MAIN [''hello''] (new_project [''hello'', ''  world'']))))) =
           ReplaceTexts new_indexes MAIN new_texts # rest
       \<and> length new_texts = length new_indexes
       \<and> (\<forall>i. i \<in> set new_indexes \<longleftrightarrow>
                i \<in> set (indexes_or_all None (new_project [''hello'', ''  world''])) \<and>
                pass_text py_env
                  (get_subtitutions [simple_pattern ''hello'' '' hello'' True False []])
                  (text_of (new_project [''hello'', ''  world'']) MAIN i) \<noteq>
                  Inr (text_of (new_project [''hello'', ''  world'']) MAIN i)))
   \<and> remove_hearing_impaired py_env None MAIN [simple_pattern ''hello'' '' hello'' True False []]
        (new_project [''  world'']) = (Inr NoChange, new_project [''  world''])"
proof -
  have h1: "remove_hearing_impaired py_env None MAIN [simple_pattern ''hello'' '' hello'' True False []]
      (new_project [''hello'', ''  world'']) =
     (Inr Changed,
      set_action_description ''Removing hearing impaired texts''
        (replace_texts [0] MAIN [''hello''] (new_project [''hello'', ''  world''])))"
    by code_simp
  have h2: "pass_text py_env (get_subtitutions [simple_pattern ''hello'' '' hello'' True False []])
        ''hello'' = Inr '' hello''"
    by code_simp
  have h3: "require None (new_project [''  world''])"
    by (simp add: require_def)
  have h4: "\<forall>i \<in> set (indexes_or_all None (new_project [''  world''])).
           pass_text py_env (get_subtitutions [simple_pattern ''hello'' '' hello'' True False []])
             (text_of (new_project [''  world'']) MAIN i) =
             Inr (text_of (new_project [''  world'']) MAIN i)"
  proof -
    have "pass_text py_env (get_subtitutions [simple_pattern ''hello'' '' hello'' True False []])
             ''  world'' = Inr ''  world''"
      by code_simp
    then show ?thesis
      by (simp add: indexes_or_all_def new_project_def text_of_def get_text_def)
  qed
  from changed_decided_before_cleanup [of py_env None MAIN
      "[simple_pattern ''hello'' '' hello'' True False []]"
      "new_project [''hello'', ''  world'']"
      "set_action_description ''Removing hearing impaired texts''
        (replace_texts [0] MAIN [''hello''] (new_project [''hello'', ''  world'']))"] h1
  have c1: "\<exists>new_indexes new_texts rest.
         operations (last (undoables
           (set_action_description ''Removing hearing impaired texts''
              (replace_texts [0] MAIN [''hello''] (new_project [''hello'', ''  world'']))))) =
           ReplaceTexts new_indexes MAIN new_texts # rest
       \<and> length new_texts = length new_indexes
       \<and> (\<forall>i. i \<in> set new_indexes \<longleftrightarrow>
                i \<in> set (indexes_or_all None (new_project [''hello'', ''  world''])) \<and>
                pass_text py_env
                  (get_subtitutions [simple_pattern ''hello'' '' hello'' True False []])
                  (text_of (new_project [''hello'', ''  world'']) MAIN i) \<noteq>
                  Inr (text_of (new_project [''hello'', ''  world'']) MAIN i))"
    by blast
  from changed_decided_before_cleanup [of py_env None MAIN
      "[simple_pattern ''hello'' '' hello'' True False []]" "new_project [''  world'']"] h3 h4
  have c2: "remove_hearing_impaired py_env None MAIN [simple_pattern ''hello'' '' hello'' True False []]
        (new_project [''  world'']) = (Inr NoChange, new_project [''  world''])"
    by blast
  from h1 h2 c1 c2 show ?thesis by (intro conjI)
qed

end
